theory Spec2Isabelle
  imports Main "HOL-Library.Multiset"
begin

section \<open>Collaborator types: token types, colours, style entries\<close>

text \<open>
  The formatter lives in one Go file (package tailwind). It consumes token types, styles
  and style entries of the chroma package, whose sources are not part of the formatter.
  Only what the formatter reads of them is modelled here.
\<close>

text \<open>
  Modelled from the spec: the token type enumeration is missing. The structural
  pseudo-categories the formatter names are constructors of their own; every other
  category (Keyword, String, Comment.Single, ...) is \<open>Tok n\<close>.
\<close>

datatype TokenType =
    Background | PreWrapper | Line | LineNumbers | LineNumbersTable | LineHighlight
  | LineTable | LineTableTD | LineLink | CodeLine | Tok nat

text \<open>
  Modelled from the spec: the colour type is missing. "Either unset, or a concrete RGB
  value with a canonical lowercase hex string representation (#rrggbb)." The formatter
  asks for the string of a colour only after \<open>IsSet\<close>, so the string of the unset
  colour is never read.
\<close>

datatype Colour = Unset | RGB nat

definition IsSet :: "Colour \<Rightarrow> bool" where
  "IsSet c = (c \<noteq> Unset)"

definition hex_digit :: "nat \<Rightarrow> char" where
  "hex_digit d = ''0123456789abcdef'' ! (d mod 16)"

function hex_nat :: "nat \<Rightarrow> string" where
  "hex_nat n = (if n < 16 then [hex_digit n] else hex_nat (n div 16) @ [hex_digit (n mod 16)])"
  by pat_completeness auto
termination
  by (relation "measure id") auto

definition Colour_String :: "Colour \<Rightarrow> string" where
  "Colour_String c =
     (case c of
        Unset \<Rightarrow> []
      | RGB n \<Rightarrow> CHR ''#'' # replicate (6 - length (hex_nat n)) CHR ''0'' @ hex_nat n)"

text \<open>Modelled from the spec: the tri-state flag type (unset / yes / no) is missing.\<close>

datatype Trilean = Pass | Yes | No

text \<open>
  Modelled from the spec: the style entry type is missing. "Optional foreground color,
  optional background color, bold/italic/underline tri-state flags."
\<close>

record StyleEntry =
  Colour :: Colour
  Background_colour :: Colour
  Bold :: Trilean
  Italic :: Trilean
  Underline :: Trilean

text \<open>
  Modelled from the spec: the subtraction of style entries is missing. "Any foreground
  color, flag, etc. on an entry that exactly equals the background's corresponding field
  is treated as unset for that entry. This subtraction is field-wise, not holistic."
  \<open>Sub s e\<close> is the Go call \<open>s.Sub(e)\<close>.
\<close>

definition Sub :: "StyleEntry \<Rightarrow> StyleEntry \<Rightarrow> StyleEntry" where
  "Sub s e =
     \<lparr> Colour = (if Colour e \<noteq> Colour s then Colour s else Unset),
       Background_colour =
         (if Background_colour e \<noteq> Background_colour s then Background_colour s else Unset),
       Bold = (if Bold e \<noteq> Bold s then Bold s else Pass),
       Italic = (if Italic e \<noteq> Italic s then Italic s else Pass),
       Underline = (if Underline e \<noteq> Underline s then Underline s else Pass) \<rparr>"

text \<open>
  A style is read only through its lookup \<open>Get\<close>, which resolves the hierarchical
  fallback inside chroma. A style value is therefore its lookup function. Styles are
  passed by pointer; \<open>StylePtr\<close> is the address and the style heap maps addresses to
  styles. The light style is required (a nil light style is outside this model); the
  dark style may be nil, which is \<open>None\<close>.
\<close>

type_synonym Style = "TokenType \<Rightarrow> StyleEntry"
type_synonym StylePtr = nat
type_synonym StyleHeap = "StylePtr \<Rightarrow> Style"

record Token =
  Type :: TokenType
  Value :: string

section \<open>Library functions on strings\<close>

text \<open>Go's \<open>strings.Join\<close>.\<close>

fun Join :: "string list \<Rightarrow> string \<Rightarrow> string" where
  "Join [] sep = []"
| "Join [x] sep = x"
| "Join (x # y # ys) sep = x @ sep @ Join (y # ys) sep"

text \<open>
  Go's \<open>unicode.IsSpace\<close> on a string of UTF-8 bytes: \<open>space_len s\<close> is the number
  of bytes of the white space character that \<open>s\<close> starts with, and 0 when it starts
  with none. The white space characters are U+0009 to U+000D, U+0020, U+0085, U+00A0,
  U+1680, U+2000 to U+200A, U+2028, U+2029, U+202F, U+205F and U+3000.
\<close>

definition space_len :: "string \<Rightarrow> nat" where
  "space_len s =
     (if take 1 s \<in> set [[CHR 0x09], [CHR 0x0A], [CHR 0x0B], [CHR 0x0C], [CHR 0x0D], [CHR 0x20]]
      then 1
      else if take 2 s \<in> set [[CHR 0xC2, CHR 0x85], [CHR 0xC2, CHR 0xA0]]
      then 2
      else if take 3 s \<in> set
          [[CHR 0xE1, CHR 0x9A, CHR 0x80],
           [CHR 0xE2, CHR 0x80, CHR 0x80], [CHR 0xE2, CHR 0x80, CHR 0x81],
           [CHR 0xE2, CHR 0x80, CHR 0x82], [CHR 0xE2, CHR 0x80, CHR 0x83],
           [CHR 0xE2, CHR 0x80, CHR 0x84], [CHR 0xE2, CHR 0x80, CHR 0x85],
           [CHR 0xE2, CHR 0x80, CHR 0x86], [CHR 0xE2, CHR 0x80, CHR 0x87],
           [CHR 0xE2, CHR 0x80, CHR 0x88], [CHR 0xE2, CHR 0x80, CHR 0x89],
           [CHR 0xE2, CHR 0x80, CHR 0x8A],
           [CHR 0xE2, CHR 0x80, CHR 0xA8], [CHR 0xE2, CHR 0x80, CHR 0xA9],
           [CHR 0xE2, CHR 0x80, CHR 0xAF], [CHR 0xE2, CHR 0x81, CHR 0x9F],
           [CHR 0xE3, CHR 0x80, CHR 0x80]]
      then 3
      else 0)"

text \<open>
  \<open>runes\<close> cuts a string into its white space characters and, between them, single
  bytes. A white space character starts with a byte that is no continuation byte, so
  this finds the same white space as decoding the string rune by rune, also where the
  string is not valid UTF-8. \<open>isSpace\<close> tells whether such a piece is a white space
  character.
\<close>

function runes :: "string \<Rightarrow> string list" where
  "runes [] = []"
| "runes (c # cs) =
     (if space_len (c # cs) = 0 then [c] # runes cs
      else take (space_len (c # cs)) (c # cs) # runes (drop (space_len (c # cs)) (c # cs)))"
  by pat_completeness auto
termination
  by (relation "measure length") auto

definition isSpace :: "string \<Rightarrow> bool" where
  "isSpace r = (space_len r \<noteq> 0)"

text \<open>Go's \<open>strings.TrimSpace\<close>: leading and trailing white space is cut off.\<close>

definition TrimSpace :: "string \<Rightarrow> string" where
  "TrimSpace s = concat (rev (dropWhile isSpace (rev (dropWhile isSpace (runes s)))))"

text \<open>Go's \<open>strings.Fields\<close>: the maximal runs without white space.\<close>

fun Fields_acc :: "string \<Rightarrow> string list \<Rightarrow> string list" where
  "Fields_acc cur [] = (if cur = [] then [] else [cur])"
| "Fields_acc cur (r # rs) =
     (if isSpace r then (if cur = [] then Fields_acc [] rs else cur # Fields_acc [] rs)
      else Fields_acc (cur @ r) rs)"

definition Fields :: "string \<Rightarrow> string list" where
  "Fields s = Fields_acc [] (runes s)"

text \<open>Go's \<open>strconv.Itoa\<close> and the verb \<open>%d\<close>.\<close>

function digits :: "nat \<Rightarrow> string" where
  "digits n =
     (if n < 10 then [''0123456789'' ! n] else digits (n div 10) @ [''0123456789'' ! (n mod 10)])"
  by pat_completeness auto
termination
  by (relation "measure id") auto

definition Itoa :: "int \<Rightarrow> string" where
  "Itoa i = (if i < 0 then CHR ''-'' # digits (nat (- i)) else digits (nat i))"

text \<open>The verb \<open>%*d\<close> with a positive width: right-justified, padded with spaces.\<close>

definition pad_int :: "nat \<Rightarrow> int \<Rightarrow> string" where
  "pad_int w i = replicate (w - length (Itoa i)) CHR '' '' @ Itoa i"

text \<open>Go's \<open>html.EscapeString\<close>: five characters are replaced by entities.\<close>

definition escape_char :: "char \<Rightarrow> string" where
  "escape_char c =
     (if c = CHR ''&'' then ''&amp;''
      else if c = CHR 0x27 then ''&#39;''
      else if c = CHR ''<'' then ''&lt;''
      else if c = CHR ''>'' then ''&gt;''
      else if c = CHR 0x22 then ''&#34;''
      else [c])"

definition EscapeString :: "string \<Rightarrow> string" where
  "EscapeString s = concat (map escape_char s)"

text \<open>
  Go's \<open>int\<close> is 64 bits wide and signed; \<open>int64\<close> is the wrap-around of a
  mathematical integer into that range.
\<close>

definition int64 :: "int \<Rightarrow> int" where
  "int64 i = (i + 2 ^ 63) mod 2 ^ 64 - 2 ^ 63"

section \<open>The formatter and its options\<close>

text \<open>
  A Go slice of ranges is a window into a backing array: the array's address, the
  offset of the window and its length. The arrays live in a store, so that the caller's
  slice and the formatter's field can share one array.
\<close>

record slice =
  arr :: nat
  off :: nat
  len :: nat

type_synonym HRange = "int \<times> int"
type_synonym Store = "nat \<Rightarrow> HRange list"

definition read_slice :: "Store \<Rightarrow> slice \<Rightarrow> HRange list" where
  "read_slice st s = take (len s) (drop (off s) (st (arr s)))"

definition write_slice :: "Store \<Rightarrow> slice \<Rightarrow> HRange list \<Rightarrow> Store" where
  "write_slice st s xs =
     st (arr s := take (off s) (st (arr s)) @ xs @ drop (off s + len s) (st (arr s)))"

definition nil_slice :: slice where
  "nil_slice = \<lparr> arr = 0, off = 0, len = 0 \<rparr>"

record PreWrapper_i =
  Start :: "bool \<Rightarrow> string \<Rightarrow> string"
  End :: "bool \<Rightarrow> string"

record Formatter =
  standalone :: bool
  prefix :: string
  darkStyle :: "StylePtr option"
  preWrapper :: PreWrapper_i
  inlineCode :: bool
  preventSurroundingPre :: bool
  tabWidth :: int
  wrapLongLines :: bool
  lineNumbers :: bool
  lineNumbersInTable :: bool
  linkableLineNumbers :: bool
  lineNumbersIDPrefix :: string
  highlightRanges :: slice
  baseLineNumber :: int

definition nopPreWrapper :: PreWrapper_i where
  "nopPreWrapper = \<lparr> Start = (\<lambda>code classAttr. []), End = (\<lambda>code. []) \<rparr>"

definition defaultPreWrapper :: PreWrapper_i where
  "defaultPreWrapper =
     \<lparr> Start = (\<lambda>code classAttr.
         if code then ''<pre'' @ classAttr @ ''><code>'' else ''<pre'' @ classAttr @ ''>''),
       End = (\<lambda>code. if code then ''</code></pre>'' else ''</pre>'') \<rparr>"

definition inlinePreWrapper :: PreWrapper_i where
  "inlinePreWrapper =
     \<lparr> Start = (\<lambda>code classAttr. if code then ''<code'' @ classAttr @ ''>'' else []),
       End = (\<lambda>code. if code then ''</code>'' else []) \<rparr>"

text \<open>
  The fields \<open>tabWidth\<close> and \<open>baseLineNumber\<close> are Go ints; their values are taken
  to lie in the 64-bit range, and the arithmetic on line numbers wraps explicitly. The
  field \<open>classCache\<close> points to a cache that points back to the formatter; the cache
  is kept as a value of its own (\<open>newClassCache\<close> below) and passed with the formatter.

  An option is a closure run on the formatter by \<open>New\<close>. It may also write to the
  store of range arrays, so it transforms the pair of formatter and store.
\<close>

type_synonym Option_f = "Formatter \<times> Store \<Rightarrow> Formatter \<times> Store"

definition Standalone :: "bool \<Rightarrow> Option_f" where
  "Standalone b = (\<lambda>(f, st). (f\<lparr>standalone := b\<rparr>, st))"

definition ClassPrefix :: "string \<Rightarrow> Option_f" where
  "ClassPrefix p = (\<lambda>(f, st). (f\<lparr>prefix := p\<rparr>, st))"

definition WithDarkStyle :: "StylePtr option \<Rightarrow> Option_f" where
  "WithDarkStyle s = (\<lambda>(f, st). (f\<lparr>darkStyle := s\<rparr>, st))"

definition TabWidth :: "int \<Rightarrow> Option_f" where
  "TabWidth w = (\<lambda>(f, st). (f\<lparr>tabWidth := w\<rparr>, st))"

definition PreventSurroundingPre :: "bool \<Rightarrow> Option_f" where
  "PreventSurroundingPre b =
     (\<lambda>(f, st). (f\<lparr>preventSurroundingPre := b,
                    preWrapper := (if b then nopPreWrapper else defaultPreWrapper)\<rparr>, st))"

definition InlineCode :: "bool \<Rightarrow> Option_f" where
  "InlineCode b = (\<lambda>(f, st). (f\<lparr>inlineCode := b, preWrapper := inlinePreWrapper\<rparr>, st))"

definition WithPreWrapper :: "PreWrapper_i \<Rightarrow> Option_f" where
  "WithPreWrapper w = (\<lambda>(f, st). (f\<lparr>preWrapper := w\<rparr>, st))"

definition WrapLongLines :: "bool \<Rightarrow> Option_f" where
  "WrapLongLines b = (\<lambda>(f, st). (f\<lparr>wrapLongLines := b\<rparr>, st))"

definition WithLineNumbers :: "bool \<Rightarrow> Option_f" where
  "WithLineNumbers b = (\<lambda>(f, st). (f\<lparr>lineNumbers := b\<rparr>, st))"

definition LineNumbersInTable :: "bool \<Rightarrow> Option_f" where
  "LineNumbersInTable b = (\<lambda>(f, st). (f\<lparr>lineNumbersInTable := b\<rparr>, st))"

definition WithLinkableLineNumbers :: "bool \<Rightarrow> string \<Rightarrow> Option_f" where
  "WithLinkableLineNumbers b p =
     (\<lambda>(f, st). (f\<lparr>linkableLineNumbers := b, lineNumbersIDPrefix := p\<rparr>, st))"

text \<open>
  \<open>HighlightLines\<close> stores the caller's slice header in the formatter and then runs
  \<open>sort.Sort\<close> on it, which permutes the backing array in place. \<open>sort.Sort\<close> is
  not stable and its order among equal start lines is not fixed by its contract, so the
  sorting function \<open>srt\<close> is a parameter; what is known of it is \<open>sorts_by_start\<close>.
\<close>

definition sorts_by_start :: "(HRange list \<Rightarrow> HRange list) \<Rightarrow> bool" where
  "sorts_by_start srt = (\<forall>xs. mset (srt xs) = mset xs \<and> sorted (map fst (srt xs)))"

definition HighlightLines :: "(HRange list \<Rightarrow> HRange list) \<Rightarrow> slice \<Rightarrow> Option_f" where
  "HighlightLines srt ranges =
     (\<lambda>(f, st). (f\<lparr>highlightRanges := ranges\<rparr>,
                  write_slice st ranges (srt (read_slice st ranges))))"

definition BaseLineNumber :: "int \<Rightarrow> Option_f" where
  "BaseLineNumber n = (\<lambda>(f, st). (f\<lparr>baseLineNumber := n\<rparr>, st))"

definition New :: "Option_f list \<Rightarrow> Store \<Rightarrow> Formatter \<times> Store" where
  "New options st =
     foldl (\<lambda>fs option. option fs)
       (\<lparr> standalone = False, prefix = [], darkStyle = None, preWrapper = defaultPreWrapper,
          inlineCode = False, preventSurroundingPre = False, tabWidth = 0,
          wrapLongLines = False, lineNumbers = False, lineNumbersInTable = False,
          linkableLineNumbers = False, lineNumbersIDPrefix = [],
          highlightRanges = nil_slice, baseLineNumber = 1 \<rparr>, st)
       options"

section \<open>Class computation (the style differ)\<close>

definition prefixClass :: "string \<Rightarrow> string \<Rightarrow> string" where
  "prefixClass p class = (if p = [] then class else p @ class)"

definition joinClasses :: "string \<Rightarrow> string \<Rightarrow> string" where
  "joinClasses a b = (if a = [] then b else if b = [] then a else a @ '' '' @ b)"

definition prefixedClasses :: "Formatter \<Rightarrow> string list \<Rightarrow> string list" where
  "prefixedClasses f cs = map (prefixClass (prefix f)) (filter (\<lambda>class. class \<noteq> []) cs)"

definition darkClass :: "Formatter \<Rightarrow> string \<Rightarrow> string" where
  "darkClass f class = ''dark:'' @ prefixClass (prefix f) class"

definition tabWidthClass :: "Formatter \<Rightarrow> string" where
  "tabWidthClass f =
     (if tabWidth f \<noteq> 0 \<and> tabWidth f \<noteq> 8 then ''[tab-size:'' @ Itoa (tabWidth f) @ '']''
      else [])"

definition baseClasses :: "Formatter \<Rightarrow> TokenType \<Rightarrow> string list" where
  "baseClasses f tt =
     (case tt of
        PreWrapper \<Rightarrow>
          (if 0 < len (highlightRanges f) then [''grid''] else []) @
          (if wrapLongLines f then [''whitespace-pre-wrap'', ''break-words''] else [])
      | Line \<Rightarrow> [''flex'']
      | LineNumbers \<Rightarrow> [''whitespace-pre'', ''select-none'', ''mr-[0.4em]'', ''px-[0.4em]'']
      | LineNumbersTable \<Rightarrow>
          [''whitespace-pre'', ''select-none'', ''mr-[0.4em]'', ''px-[0.4em]'']
      | LineTable \<Rightarrow> [''border-separate'', ''border-spacing-0'', ''p-0'', ''m-0'', ''border-0'']
      | LineTableTD \<Rightarrow> [''align-top'', ''p-0'', ''m-0'', ''border-0'']
      | LineLink \<Rightarrow> [''outline-none'', ''no-underline'', ''text-[inherit]'']
      | _ \<Rightarrow> [])"

record entryValues =
  text_c :: string
  bg_c :: string
  bold :: bool
  italic :: bool
  underline :: bool

definition entryValuesFrom :: "StyleEntry \<Rightarrow> entryValues" where
  "entryValuesFrom entry =
     \<lparr> text_c = (if IsSet (Colour entry) then ''text-['' @ Colour_String (Colour entry) @ '']''
                 else []),
       bg_c = (if IsSet (Background_colour entry)
               then ''bg-['' @ Colour_String (Background_colour entry) @ '']'' else []),
       bold = (Bold entry = Yes),
       italic = (Italic entry = Yes),
       underline = (Underline entry = Yes) \<rparr>"

text \<open>The method \<open>classes\<close> of \<open>entryValues\<close>: the light classes of an entry.\<close>

definition ev_classes :: "entryValues \<Rightarrow> string \<Rightarrow> string list" where
  "ev_classes e p =
     (if text_c e \<noteq> [] then [prefixClass p (text_c e)] else []) @
     (if bg_c e \<noteq> [] then [prefixClass p (bg_c e)] else []) @
     (if bold e then [prefixClass p ''font-bold''] else []) @
     (if italic e then [prefixClass p ''italic''] else []) @
     (if underline e then [prefixClass p ''underline''] else [])"

definition darkVariantClasses :: "Formatter \<Rightarrow> entryValues \<Rightarrow> entryValues \<Rightarrow> string list" where
  "darkVariantClasses f light dark =
     (if text_c dark \<noteq> [] then [darkClass f (text_c dark)]
      else if text_c light \<noteq> [] then [darkClass f ''text-[inherit]''] else []) @
     (if bg_c dark \<noteq> [] then [darkClass f (bg_c dark)]
      else if bg_c light \<noteq> [] then [darkClass f ''bg-transparent''] else []) @
     (if bold dark then [darkClass f ''font-bold'']
      else if bold light then [darkClass f ''font-normal''] else []) @
     (if italic dark then [darkClass f ''italic'']
      else if italic light then [darkClass f ''not-italic''] else []) @
     (if underline dark then [darkClass f ''underline'']
      else if underline light then [darkClass f ''no-underline''] else [])"

text \<open>
  A class mapping is a Go map from token types to strings; indexing a missing key gives
  the empty string, which is \<open>lookup\<close>.
\<close>

type_synonym ClassMapping = "TokenType \<rightharpoonup> string"

definition lookup :: "ClassMapping \<Rightarrow> TokenType \<Rightarrow> string" where
  "lookup m t = (case m t of None \<Rightarrow> [] | Some s \<Rightarrow> s)"

text \<open>
  The entries the loop body of \<open>classes\<close> derives for one token type: the light entry
  and the dark entry, each with its theme's Background entry subtracted unless the token
  type is Background itself.
\<close>

definition lightEntry_of :: "Style \<Rightarrow> TokenType \<Rightarrow> StyleEntry" where
  "lightEntry_of light t = (if t \<noteq> Background then Sub (light t) (light Background) else light t)"

definition darkEntry_of :: "Style \<Rightarrow> TokenType \<Rightarrow> StyleEntry" where
  "darkEntry_of dark t = (if t \<noteq> Background then Sub (dark t) (dark Background) else dark t)"

text \<open>The slice \<open>parts\<close> of the loop body, in its three appends.\<close>

definition class_parts :: "Formatter \<Rightarrow> Style \<Rightarrow> Style \<Rightarrow> TokenType \<Rightarrow> string list" where
  "class_parts f light dark t =
     (let lightValues = entryValuesFrom (lightEntry_of light t);
          darkValues = entryValuesFrom (darkEntry_of dark t)
      in prefixedClasses f (baseClasses f t) @
         ev_classes lightValues (prefix f) @
         darkVariantClasses f lightValues darkValues)"

text \<open>
  \<open>classes\<close>. The table \<open>StandardTypes\<close> of chroma is missing; its keys, in the
  order the loop happens to visit them, are the parameter \<open>std\<close>.
\<close>

definition classes ::
  "TokenType list \<Rightarrow> Formatter \<Rightarrow> StyleHeap \<Rightarrow> StylePtr \<Rightarrow> StylePtr option \<Rightarrow> ClassMapping" where
  "classes std f h light dark =
     (let dark1 = (case dark of None \<Rightarrow> light | Some d \<Rightarrow> d);
          c0 = foldl (\<lambda>m t. m(t \<mapsto> Join (class_parts f (h light) (h dark1) t) '' ''))
                 Map.empty std;
          tabClass = tabWidthClass f;
          c1 = (if tabClass \<noteq> []
                then c0(Background \<mapsto> joinClasses (lookup c0 Background)
                                         (prefixClass (prefix f) tabClass))
                else c0)
      in c1(PreWrapper \<mapsto> joinClasses (lookup c1 PreWrapper) (lookup c1 Background)))"

section \<open>The class cache\<close>

definition classCacheLimit :: nat where
  "classCacheLimit = 32"

record classCacheEntry =
  light :: StylePtr
  dark :: StylePtr
  cache :: ClassMapping

text \<open>
  The cache is the slice of entries, least recently used first. The field \<open>computed\<close>
  is not in the source: it counts the calls of \<open>classes\<close> made through the cache, so
  that "without recomputation" can be stated. The mutex is not modelled: one call of
  \<open>get\<close> is one atomic step.
\<close>

record classCache =
  entries :: "classCacheEntry list"
  computed :: nat

definition newClassCache :: classCache where
  "newClassCache = \<lparr> entries = [], computed = 0 \<rparr>"

text \<open>Go's built-in \<open>copy(dst, src)\<close>: the new contents of \<open>dst\<close>.\<close>

definition copy_go :: "'a list \<Rightarrow> 'a list \<Rightarrow> 'a list" where
  "copy_go dst src = take (length dst) src @ drop (length src) dst"

text \<open>
  The lookup loop of \<open>get\<close>: \<open>find_entry es l d n\<close> scans the indices below \<open>n\<close>
  downwards and returns the first index whose entry matches both pointers.
\<close>

fun find_entry :: "classCacheEntry list \<Rightarrow> StylePtr \<Rightarrow> StylePtr \<Rightarrow> nat \<Rightarrow> nat option" where
  "find_entry es l d 0 = None"
| "find_entry es l d (Suc i) =
     (if light (es ! i) = l \<and> dark (es ! i) = d then Some i else find_entry es l d i)"

definition get ::
  "TokenType list \<Rightarrow> Formatter \<Rightarrow> StyleHeap \<Rightarrow> classCache \<Rightarrow> StylePtr \<Rightarrow> StylePtr option
     \<Rightarrow> ClassMapping \<times> classCache" where
  "get std f h c l d0 =
     (let d = (case d0 of None \<Rightarrow> l | Some p \<Rightarrow> p);
          es = entries c
      in case find_entry es l d (length es) of
           Some i \<Rightarrow>
             (let entry = es ! i
              in if i = length es - 1 then (cache entry, c)
                 else (cache entry,
                       c\<lparr>entries :=
                           (take i es @ copy_go (drop i es) (drop (i + 1) es))
                             [length es - 1 := entry]\<rparr>))
         | None \<Rightarrow>
             (let cached = classes std f h l (Some d);
                  es1 = (if length es \<ge> classCacheLimit
                         then take (min (length es) (length (drop 1 es))) (copy_go es (drop 1 es))
                         else es)
              in (cached,
                  c\<lparr>entries := es1 @ [\<lparr> light = l, dark = d, cache = cached \<rparr>],
                    computed := computed c + 1\<rparr>)))"

section \<open>The renderer\<close>

text \<open>
  The local variable \<open>classes\<close> of \<open>writeHTML\<close> and the parameter of the same
  name of its helpers is \<open>cmap\<close> here, since \<open>classes\<close> is the method above.
\<close>

definition nl :: string where
  "nl = [CHR 0x0A]"

definition dq :: string where
  "dq = [CHR 0x22]"

definition classAttr :: "Formatter \<Rightarrow> ClassMapping \<Rightarrow> TokenType \<Rightarrow> string list \<Rightarrow> string" where
  "classAttr f cmap tt extraClasses =
     (let cls = TrimSpace (lookup cmap tt);
          parts0 = (if cls \<noteq> [] then [cls] else []);
          parts = parts0 @
            concat (map (\<lambda>extra0.
                      let extra = TrimSpace extra0
                      in if extra = [] then []
                         else (let prefixed = prefixedClasses f (Fields extra)
                               in if 0 < length prefixed then [Join prefixed '' ''] else []))
                    extraClasses)
      in if length parts = 0 then []
         else '' class='' @ dq @ Join parts '' '' @ dq)"

definition lineID :: "Formatter \<Rightarrow> int \<Rightarrow> string" where
  "lineID f line = lineNumbersIDPrefix f @ Itoa line"

definition lineIDAttribute :: "Formatter \<Rightarrow> int \<Rightarrow> string" where
  "lineIDAttribute f line =
     (if \<not> linkableLineNumbers f then [] else '' id='' @ dq @ lineID f line @ dq)"

definition lineTitleWithLinkIfNeeded :: "Formatter \<Rightarrow> ClassMapping \<Rightarrow> nat \<Rightarrow> int \<Rightarrow> string" where
  "lineTitleWithLinkIfNeeded f cmap lineDigits line =
     (let title = pad_int lineDigits line
      in if \<not> linkableLineNumbers f then title
         else ''<a'' @ classAttr f cmap LineLink [] @ '' href='' @ dq @ ''#'' @
              lineID f line @ dq @ ''>'' @ title @ ''</a>'')"

text \<open>
  \<open>shouldHighlight\<close>. The ranges are what the formatter's slice shows of the store at
  the time of the call. \<open>hl_advance\<close> is the loop that moves the cursor past the ranges
  ending below the line.
\<close>

function hl_advance :: "HRange list \<Rightarrow> nat \<Rightarrow> int \<Rightarrow> bool \<Rightarrow> nat \<times> bool" where
  "hl_advance hr highlightIndex line next =
     (if highlightIndex < length hr \<and> line > snd (hr ! highlightIndex)
      then hl_advance hr (highlightIndex + 1) line True
      else (highlightIndex, next))"
  by pat_completeness auto
termination
  by (relation "measure (\<lambda>(hr, i, line, next). length hr - i)") auto

definition shouldHighlight :: "HRange list \<Rightarrow> nat \<Rightarrow> int \<Rightarrow> bool \<times> bool" where
  "shouldHighlight hr highlightIndex line =
     (case hl_advance hr highlightIndex line False of
        (i, next) \<Rightarrow>
          if i < length hr
          then (let hrange = hr ! i
                in if line \<ge> fst hrange \<and> line \<le> snd hrange then (True, next)
                   else (False, next))
          else (False, next))"

definition ranges_of :: "Formatter \<Rightarrow> Store \<Rightarrow> HRange list" where
  "ranges_of f st = read_slice st (highlightRanges f)"

text \<open>
  The line numbers of the two loops over \<open>lines\<close>: the base line number plus the
  index, in Go's 64-bit arithmetic.
\<close>

definition line_numbers :: "Formatter \<Rightarrow> nat \<Rightarrow> int list" where
  "line_numbers f n = map (\<lambda>index. int64 (baseLineNumber f + int index)) [0..<n]"

text \<open>
  Every \<open>fmt.Fprint\<close> and \<open>fmt.Fprintf\<close> of \<open>writeHTML\<close> is one call of the
  sink's \<open>Write\<close>. The functions below give the payloads of these calls in order.
\<close>

definition table_line :: "Formatter \<Rightarrow> ClassMapping \<Rightarrow> nat \<Rightarrow> bool \<Rightarrow> int \<Rightarrow> string list" where
  "table_line f cmap lineDigits highlight line =
     (if highlight then [''<span'' @ classAttr f cmap LineHighlight [] @ ''>''] else []) @
     [''<span'' @ classAttr f cmap LineNumbersTable [] @ lineIDAttribute f line @ ''>'' @
      lineTitleWithLinkIfNeeded f cmap lineDigits line @ nl @ ''</span>''] @
     (if highlight then [''</span>''] else [])"

fun table_lines ::
  "Formatter \<Rightarrow> ClassMapping \<Rightarrow> HRange list \<Rightarrow> nat \<Rightarrow> nat \<Rightarrow> int list \<Rightarrow> string list" where
  "table_lines f cmap hr lineDigits highlightIndex [] = []"
| "table_lines f cmap hr lineDigits highlightIndex (line # rest) =
     (case shouldHighlight hr highlightIndex line of
        (highlight, next) \<Rightarrow>
          table_line f cmap lineDigits highlight line @
          table_lines f cmap hr lineDigits
            (if next then highlightIndex + 1 else highlightIndex) rest)"

definition token_html :: "Formatter \<Rightarrow> ClassMapping \<Rightarrow> Token \<Rightarrow> string" where
  "token_html f cmap token =
     (let html = EscapeString (Value token);
          attr = classAttr f cmap (Type token) []
      in if attr \<noteq> [] then ''<span'' @ attr @ ''>'' @ html @ ''</span>'' else html)"

definition code_line ::
  "Formatter \<Rightarrow> ClassMapping \<Rightarrow> nat \<Rightarrow> bool \<Rightarrow> bool \<Rightarrow> int \<Rightarrow> Token list \<Rightarrow> string list" where
  "code_line f cmap lineDigits wrapInTable highlight line tokens =
     (if \<not> (preventSurroundingPre f \<or> inlineCode f)
      then [''<span''] @
           (if highlight
            then (let lineClasses =
                        TrimSpace (Join [lookup cmap Line, lookup cmap LineHighlight] '' '')
                  in (if lineClasses \<noteq> [] then ['' class='' @ dq @ lineClasses @ dq] else []) @
                     [''>''])
            else [classAttr f cmap Line [] @ ''>'']) @
           (if lineNumbers f \<and> \<not> wrapInTable
            then [''<span'' @ classAttr f cmap LineNumbers [] @ lineIDAttribute f line @
                  ''>'' @ lineTitleWithLinkIfNeeded f cmap lineDigits line @ ''</span>'']
            else []) @
           [''<span'' @ classAttr f cmap CodeLine [] @ ''>'']
      else []) @
     map (token_html f cmap) tokens @
     (if \<not> (preventSurroundingPre f \<or> inlineCode f) then [''</span>'', ''</span>''] else [])"

fun code_lines ::
  "Formatter \<Rightarrow> ClassMapping \<Rightarrow> HRange list \<Rightarrow> nat \<Rightarrow> bool \<Rightarrow> nat \<Rightarrow> (int \<times> Token list) list
     \<Rightarrow> string list" where
  "code_lines f cmap hr lineDigits wrapInTable highlightIndex [] = []"
| "code_lines f cmap hr lineDigits wrapInTable highlightIndex ((line, tokens) # rest) =
     (case shouldHighlight hr highlightIndex line of
        (highlight, next) \<Rightarrow>
          code_line f cmap lineDigits wrapInTable highlight line tokens @
          code_lines f cmap hr lineDigits wrapInTable
            (if next then highlightIndex + 1 else highlightIndex) rest)"

text \<open>
  The payloads of \<open>writeHTML\<close> once the class mapping is known. The function
  \<open>SplitTokensIntoLines\<close> of chroma is missing; it is the parameter \<open>split\<close>.
\<close>

definition html_writes ::
  "(Token list \<Rightarrow> Token list list) \<Rightarrow> Formatter \<Rightarrow> Store \<Rightarrow> ClassMapping \<Rightarrow> Token list
     \<Rightarrow> string list" where
  "html_writes split f st cmap tokens =
     (let wrapInTable = (lineNumbers f \<and> lineNumbersInTable f);
          lines = split tokens;
          lineDigits = length (Itoa (int64 (int64 (baseLineNumber f + int (length lines)) - 1)));
          hr = ranges_of f st;
          nums = line_numbers f (length lines)
      in (if standalone f
          then [''<html>'' @ nl, ''<body'' @ classAttr f cmap Background [] @ ''>'' @ nl]
          else []) @
         (if wrapInTable
          then [''<div'' @ classAttr f cmap PreWrapper [] @ ''>'' @ nl,
                ''<table'' @ classAttr f cmap LineTable [] @ ''><tr>'',
                ''<td'' @ classAttr f cmap LineTableTD [] @ ''>'' @ nl,
                Start (preWrapper f) False (classAttr f cmap PreWrapper [])] @
               table_lines f cmap hr lineDigits 0 nums @
               [End (preWrapper f) False,
                ''</td>'' @ nl,
                ''<td'' @ classAttr f cmap LineTableTD [''w-full''] @ ''>'' @ nl]
          else []) @
         [Start (preWrapper f) True (classAttr f cmap PreWrapper [])] @
         code_lines f cmap hr lineDigits wrapInTable 0 (zip nums lines) @
         [End (preWrapper f) True] @
         (if wrapInTable then [''</td></tr></table>'' @ nl, ''</div>'' @ nl] else []) @
         (if standalone f then [nl @ ''</body>'' @ nl, ''</html>'' @ nl] else []))"

text \<open>
  The output sink: \<open>Write\<close> takes the sink's state and a payload and returns the new
  state and an error or nil. \<open>Fprint\<close> performs the write; every call site of
  \<open>writeHTML\<close> drops the error it returns.
\<close>

type_synonym error = string
type_synonym 's Writer = "'s \<Rightarrow> string \<Rightarrow> 's \<times> error option"

definition Fprint :: "'s Writer \<Rightarrow> 's \<Rightarrow> string \<Rightarrow> 's \<times> error option" where
  "Fprint w s x = w s x"

definition writeHTML ::
  "TokenType list \<Rightarrow> (Token list \<Rightarrow> Token list list) \<Rightarrow> Formatter \<Rightarrow> Store \<Rightarrow> StyleHeap
     \<Rightarrow> classCache \<Rightarrow> 's Writer \<Rightarrow> 's \<Rightarrow> StylePtr \<Rightarrow> Token list
     \<Rightarrow> error option \<times> 's \<times> classCache" where
  "writeHTML std split f st h c w s style tokens =
     (case get std f h c style (darkStyle f) of
        (cmap, c1) \<Rightarrow>
          (None,
           foldl (\<lambda>s1 x. fst (Fprint w s1 x)) s (html_writes split f st cmap tokens),
           c1))"

definition Format ::
  "TokenType list \<Rightarrow> (Token list \<Rightarrow> Token list list) \<Rightarrow> Formatter \<Rightarrow> Store \<Rightarrow> StyleHeap
     \<Rightarrow> classCache \<Rightarrow> 's Writer \<Rightarrow> 's \<Rightarrow> StylePtr \<Rightarrow> Token list
     \<Rightarrow> error option \<times> 's \<times> classCache" where
  "Format std split f st h c w s style iterator =
     writeHTML std split f st h c w s style iterator"

section \<open>Specification-side definitions\<close>

text \<open>
  The classes of a category as a list: the loop body's classes for a standard type, the
  tab-size class, and what \<open>classes\<close> folds into Background and PreWrapper after the
  loop.
\<close>

definition std_parts :: "TokenType list \<Rightarrow> Formatter \<Rightarrow> Style \<Rightarrow> Style \<Rightarrow> TokenType \<Rightarrow> string list" where
  "std_parts std f L D t = (if t \<in> set std then class_parts f L D t else [])"

definition tab_part :: "Formatter \<Rightarrow> string list" where
  "tab_part f = (if tabWidthClass f \<noteq> [] then [prefixClass (prefix f) (tabWidthClass f)] else [])"

definition mapping_parts ::
  "TokenType list \<Rightarrow> Formatter \<Rightarrow> Style \<Rightarrow> Style \<Rightarrow> TokenType \<Rightarrow> string list" where
  "mapping_parts std f L D t =
     (if t = PreWrapper
      then std_parts std f L D PreWrapper @ std_parts std f L D Background @ tab_part f
      else if t = Background then std_parts std f L D Background @ tab_part f
      else std_parts std f L D t)"

text \<open>
  The five fields of a style entry that the formatter reads, with the spec's reading of
  "set": a colour that is set, a flag that is Yes.
\<close>

datatype Field = FText | FBg | FBold | FItalic | FUnderline

definition fields :: "Field list" where
  "fields = [FText, FBg, FBold, FItalic, FUnderline]"

fun field_set :: "Field \<Rightarrow> StyleEntry \<Rightarrow> bool" where
  "field_set FText e = IsSet (Colour e)"
| "field_set FBg e = IsSet (Background_colour e)"
| "field_set FBold e = (Bold e = Yes)"
| "field_set FItalic e = (Italic e = Yes)"
| "field_set FUnderline e = (Underline e = Yes)"

fun field_class :: "Field \<Rightarrow> StyleEntry \<Rightarrow> string" where
  "field_class FText e = ''text-['' @ Colour_String (Colour e) @ '']''"
| "field_class FBg e = ''bg-['' @ Colour_String (Background_colour e) @ '']''"
| "field_class FBold e = ''font-bold''"
| "field_class FItalic e = ''italic''"
| "field_class FUnderline e = ''underline''"

fun field_reset :: "Field \<Rightarrow> string" where
  "field_reset FText = ''text-[inherit]''"
| "field_reset FBg = ''bg-transparent''"
| "field_reset FBold = ''font-normal''"
| "field_reset FItalic = ''not-italic''"
| "field_reset FUnderline = ''no-underline''"

fun field_eq :: "Field \<Rightarrow> StyleEntry \<Rightarrow> StyleEntry \<Rightarrow> bool" where
  "field_eq FText a b = (Colour a = Colour b)"
| "field_eq FBg a b = (Background_colour a = Background_colour b)"
| "field_eq FBold a b = (Bold a = Bold b)"
| "field_eq FItalic a b = (Italic a = Italic b)"
| "field_eq FUnderline a b = (Underline a = Underline b)"

text \<open>
  The contribution of one field to the light classes and to the dark-variant classes, in
  the words of the spec: a set field gives one class; a field set in the dark entry gives
  the dark-prefixed class, a field set only in the light entry gives the reset class, a
  field set in neither gives nothing.
\<close>

definition light_field :: "Formatter \<Rightarrow> StyleEntry \<Rightarrow> Field \<Rightarrow> string list" where
  "light_field f le fld =
     (if field_set fld le then [prefixClass (prefix f) (field_class fld le)] else [])"

definition dark_field :: "Formatter \<Rightarrow> StyleEntry \<Rightarrow> StyleEntry \<Rightarrow> Field \<Rightarrow> string list" where
  "dark_field f le de fld =
     (if field_set fld de then [darkClass f (field_class fld de)]
      else if field_set fld le then [darkClass f (field_reset fld)]
      else [])"

definition folded_parts ::
  "TokenType list \<Rightarrow> Formatter \<Rightarrow> Style \<Rightarrow> Style \<Rightarrow> TokenType \<Rightarrow> string list" where
  "folded_parts std f L D t =
     (if t = PreWrapper then std_parts std f L D Background @ tab_part f
      else if t = Background then tab_part f
      else [])"

definition dark_of :: "StylePtr \<Rightarrow> StylePtr option \<Rightarrow> StylePtr" where
  "dark_of l d0 = (case d0 of None \<Rightarrow> l | Some d \<Rightarrow> d)"

text \<open>
  Example inputs: two themes, a style heap holding them at addresses 0 and 1, a table of
  standard types, and the formatter with no option applied.
\<close>

definition no_style :: StyleEntry where
  "no_style = \<lparr> Colour = Unset, Background_colour = Unset, Bold = Pass, Italic = Pass,
                 Underline = Pass \<rparr>"

definition light_example :: Style where
  "light_example t =
     (case t of
        Background \<Rightarrow> no_style\<lparr>Colour := RGB 0x24292e, Background_colour := RGB 0xffffff\<rparr>
      | Tok n \<Rightarrow>
          (if n = 0
           then no_style\<lparr>Colour := RGB 0xd73a49, Background_colour := RGB 0xffffff, Bold := Yes\<rparr>
           else no_style\<lparr>Colour := RGB 0x24292e, Background_colour := RGB 0xffffff\<rparr>)
      | _ \<Rightarrow> no_style)"

definition dark_example :: Style where
  "dark_example t =
     (case t of
        Background \<Rightarrow> no_style\<lparr>Colour := RGB 0xe6edf3, Background_colour := RGB 0x0d1117\<rparr>
      | Tok n \<Rightarrow>
          (if n = 0
           then no_style\<lparr>Colour := RGB 0xff7b72, Background_colour := RGB 0x0d1117\<rparr>
           else no_style\<lparr>Colour := RGB 0xe6edf3, Background_colour := RGB 0x0d1117\<rparr>)
      | _ \<Rightarrow> no_style)"

definition example_heap :: StyleHeap where
  "example_heap p = (if p = 0 then light_example else dark_example)"

definition example_std :: "TokenType list" where
  "example_std = [Background, PreWrapper, Line, Tok 0, Tok 1]"

definition empty_store :: Store where
  "empty_store a = []"

definition example_formatter :: Formatter where
  "example_formatter = fst (New [] empty_store)"

definition tab_class :: "Formatter \<Rightarrow> int \<Rightarrow> string" where
  "tab_class f n = prefixClass (prefix f) (''[tab-size:'' @ Itoa n @ '']'')"

text \<open>
  The identity a cache entry is looked up by, and a sequence of gets.
\<close>

definition key :: "classCacheEntry \<Rightarrow> StylePtr \<times> StylePtr" where
  "key e = (light e, dark e)"

definition get_all ::
  "TokenType list \<Rightarrow> Formatter \<Rightarrow> StyleHeap \<Rightarrow> classCache \<Rightarrow> (StylePtr \<times> StylePtr) list
     \<Rightarrow> classCache" where
  "get_all std f h c ks = foldl (\<lambda>c1 k. snd (get std f h c1 (fst k) (Some (snd k)))) c ks"

definition example_cache :: "nat \<Rightarrow> classCache" where
  "example_cache n =
     \<lparr> entries = map (\<lambda>i. \<lparr> light = i, dark = i, cache = Map.empty \<rparr>) [0..<n],
       computed = n \<rparr>"

text \<open>
  A line lies in some range of a list; the cursor invariant: every range below the cursor
  ends below the line.
\<close>

definition in_ranges :: "HRange list \<Rightarrow> int \<Rightarrow> bool" where
  "in_ranges hr line = list_ex (\<lambda>r. fst r \<le> line \<and> line \<le> snd r) hr"

definition skipped :: "HRange list \<Rightarrow> nat \<Rightarrow> int \<Rightarrow> bool" where
  "skipped hr hi line = (\<forall>j. j < hi \<and> j < length hr \<longrightarrow> snd (hr ! j) < line)"

definition example_store :: Store where
  "example_store a = (if a = 1 then [(10, 11), (3, 5)] else [])"

definition example_slice :: slice where
  "example_slice = \<lparr> arr = 1, off = 0, len = 2 \<rparr>"

definition by_start :: "HRange list \<Rightarrow> HRange list" where
  "by_start xs = sort_key fst xs"

text \<open>
  Every ampersand starts one of the five entities and no other special character occurs.
\<close>

fun well_escaped :: "string \<Rightarrow> bool" where
  "well_escaped [] = True"
| "well_escaped (c # cs) =
     ((if c = CHR ''&''
       then list_ex (\<lambda>e. take (length e) cs = e) [''amp;'', ''#39;'', ''lt;'', ''gt;'', ''#34;'']
       else c \<notin> set [CHR ''<'', CHR ''>'', CHR 0x22, CHR 0x27])
      \<and> well_escaped cs)"

definition failing_sink :: "nat Writer" where
  "failing_sink n x = (Suc n, Some ''write failed'')"

definition split_single :: "Token list \<Rightarrow> Token list list" where
  "split_single ts = [ts]"

definition example_tokens :: "Token list" where
  "example_tokens = [\<lparr> Type = Tok 0, Value = ''func'' \<rparr>, \<lparr> Type = Tok 1, Value = '' main'' \<rparr>]"

text \<open>
  The decisions of the cursor over a list of line numbers: what both loops of
  \<open>writeHTML\<close> compute as \<open>highlight\<close>, line after line.
\<close>

fun hl_scan :: "HRange list \<Rightarrow> nat \<Rightarrow> int list \<Rightarrow> bool list" where
  "hl_scan hr highlightIndex [] = []"
| "hl_scan hr highlightIndex (line # rest) =
     (case shouldHighlight hr highlightIndex line of
        (highlight, next) \<Rightarrow>
          highlight # hl_scan hr (if next then highlightIndex + 1 else highlightIndex) rest)"

text \<open>
  The payloads of a render that do not come from a token. None of these functions is
  given a token: \<open>frame_before\<close> is everything written before the first line of the
  code block, \<open>frame_after\<close> everything after the last, \<open>line_open\<close> and
  \<open>line_close\<close> what is written around the tokens of one line. In \<open>line_open\<close> a
  marked line carries the classes of Line and LineHighlight on its span, an unmarked
  line the classes of Line; with PreventSurroundingPre or InlineCode no line span is
  written at all.
\<close>

definition line_digits :: "Formatter \<Rightarrow> nat \<Rightarrow> nat" where
  "line_digits f n = length (Itoa (int64 (int64 (baseLineNumber f + int n) - 1)))"

definition frame_before :: "Formatter \<Rightarrow> Store \<Rightarrow> ClassMapping \<Rightarrow> nat \<Rightarrow> string list" where
  "frame_before f st cmap n =
     (if standalone f
      then [''<html>'' @ nl, ''<body'' @ classAttr f cmap Background [] @ ''>'' @ nl]
      else []) @
     (if lineNumbers f \<and> lineNumbersInTable f
      then [''<div'' @ classAttr f cmap PreWrapper [] @ ''>'' @ nl,
            ''<table'' @ classAttr f cmap LineTable [] @ ''><tr>'',
            ''<td'' @ classAttr f cmap LineTableTD [] @ ''>'' @ nl,
            Start (preWrapper f) False (classAttr f cmap PreWrapper [])] @
           table_lines f cmap (ranges_of f st) (line_digits f n) 0 (line_numbers f n) @
           [End (preWrapper f) False,
            ''</td>'' @ nl,
            ''<td'' @ classAttr f cmap LineTableTD [''w-full''] @ ''>'' @ nl]
      else []) @
     [Start (preWrapper f) True (classAttr f cmap PreWrapper [])]"

definition frame_after :: "Formatter \<Rightarrow> string list" where
  "frame_after f =
     [End (preWrapper f) True] @
     (if lineNumbers f \<and> lineNumbersInTable f
      then [''</td></tr></table>'' @ nl, ''</div>'' @ nl] else []) @
     (if standalone f then [nl @ ''</body>'' @ nl, ''</html>'' @ nl] else [])"

definition line_open :: "Formatter \<Rightarrow> ClassMapping \<Rightarrow> nat \<Rightarrow> bool \<Rightarrow> int \<Rightarrow> string list" where
  "line_open f cmap ld marked line =
     (if preventSurroundingPre f \<or> inlineCode f then []
      else [''<span''] @
           (if marked
            then (if TrimSpace (Join [lookup cmap Line, lookup cmap LineHighlight] '' '') \<noteq> []
                  then ['' class='' @ dq @
                        TrimSpace (Join [lookup cmap Line, lookup cmap LineHighlight] '' '') @ dq]
                  else []) @ [''>'']
            else [classAttr f cmap Line [] @ ''>'']) @
           (if lineNumbers f \<and> \<not> lineNumbersInTable f
            then [''<span'' @ classAttr f cmap LineNumbers [] @ lineIDAttribute f line @
                  ''>'' @ lineTitleWithLinkIfNeeded f cmap ld line @ ''</span>'']
            else []) @
           [''<span'' @ classAttr f cmap CodeLine [] @ ''>''])"

definition line_close :: "Formatter \<Rightarrow> string list" where
  "line_close f =
     (if preventSurroundingPre f \<or> inlineCode f then [] else [''</span>'', ''</span>''])"

text \<open>
  Further example inputs: a sink that keeps what is written, a splitter that puts every
  token on a line of its own, a theme with a LineHighlight entry, formatters with
  highlight ranges, and a theme with white text on a white background.
\<close>

definition recording_sink :: "string Writer" where
  "recording_sink s x = (s @ x, None)"

fun split_each :: "Token list \<Rightarrow> Token list list" where
  "split_each [] = []"
| "split_each (t # ts) = [t] # split_each ts"

definition hl_style :: Style where
  "hl_style t =
     (if t = LineHighlight then no_style\<lparr>Background_colour := RGB 0xffffcc\<rparr>
      else light_example t)"

definition hl_heap :: StyleHeap where
  "hl_heap p = hl_style"

definition hl_std :: "TokenType list" where
  "hl_std = [Background, PreWrapper, Line, LineHighlight, CodeLine, Tok 0, Tok 1]"

definition hl_formatter :: "Formatter \<times> Store" where
  "hl_formatter = New [BaseLineNumber 2, HighlightLines by_start example_slice] example_store"

definition nowrap_formatter :: "Formatter \<times> Store" where
  "nowrap_formatter =
     New [PreventSurroundingPre True, BaseLineNumber 3, HighlightLines by_start example_slice]
       example_store"

definition white_text_style :: Style where
  "white_text_style t =
     (if t = Tok 2 then no_style\<lparr>Colour := RGB 0xffffff\<rparr> else light_example t)"

definition white_text_heap :: StyleHeap where
  "white_text_heap p = white_text_style"

section \<open>Lemmas\<close>

lemma foldl_upd_lookup:
  "foldl (\<lambda>m t. m(t \<mapsto> g t)) m0 xs t = (if t \<in> set xs then Some (g t) else m0 t)"
  by (induction xs arbitrary: m0) auto

lemma Join_Nil_iff: "[] \<notin> set xs \<Longrightarrow> (Join xs sep = []) = (xs = [])"
  by (induction xs sep rule: Join.induct) auto

lemma Join_append:
  "xs \<noteq> [] \<Longrightarrow> ys \<noteq> [] \<Longrightarrow> Join (xs @ ys) sep = Join xs sep @ sep @ Join ys sep"
  by (induction xs sep rule: Join.induct) (auto simp: neq_Nil_conv)

lemma joinClasses_Join:
  assumes "[] \<notin> set xs" "[] \<notin> set ys"
  shows "joinClasses (Join xs '' '') (Join ys '' '') = Join (xs @ ys) '' ''"
proof (cases "xs = []")
  case True
  then show ?thesis by (simp add: joinClasses_def)
next
  case xs: False
  show ?thesis
  proof (cases "ys = []")
    case True
    then show ?thesis by (simp add: joinClasses_def)
  next
    case False
    with xs assms show ?thesis
      by (simp add: joinClasses_def Join_Nil_iff Join_append)
  qed
qed

lemma prefixClass_nonempty: "c \<noteq> [] \<Longrightarrow> prefixClass p c \<noteq> []"
  by (simp add: prefixClass_def)

lemma prefixClass_eq: "prefixClass p c = p @ c"
  by (simp add: prefixClass_def)

lemma prefixedClasses_nonempty: "[] \<notin> set (prefixedClasses f cs)"
  by (auto simp: prefixedClasses_def prefixClass_eq)

lemma ev_classes_nonempty: "[] \<notin> set (ev_classes e p)"
  by (auto simp: ev_classes_def prefixClass_eq)

lemma darkVariantClasses_nonempty: "[] \<notin> set (darkVariantClasses f lv dv)"
  by (auto simp: darkVariantClasses_def darkClass_def)

lemma class_parts_nonempty: "[] \<notin> set (class_parts f L D t)"
  by (simp add: class_parts_def Let_def prefixedClasses_nonempty ev_classes_nonempty
      darkVariantClasses_nonempty)

lemma std_parts_nonempty: "[] \<notin> set (std_parts std f L D t)"
  by (simp add: std_parts_def class_parts_nonempty)

lemma tab_part_nonempty: "[] \<notin> set (tab_part f)"
  by (simp add: tab_part_def prefixClass_eq)

lemma lookup_loop:
  "lookup (foldl (\<lambda>m t. m(t \<mapsto> Join (class_parts f L D t) '' '')) Map.empty std) t
     = Join (std_parts std f L D t) '' ''"
  by (simp add: lookup_def foldl_upd_lookup std_parts_def)

lemma tab_join:
  "joinClasses (Join xs '' '') (prefixClass p c) = Join (xs @ [prefixClass p c]) '' ''"
  if "[] \<notin> set xs" "c \<noteq> []"
  using joinClasses_Join[of xs "[prefixClass p c]"] that by (simp add: prefixClass_eq)

lemma lookup_classes:
  "lookup (classes std f h l (Some d)) t = Join (mapping_parts std f (h l) (h d) t) '' ''"
proof -
  let ?c0 = "foldl (\<lambda>m t. m(t \<mapsto> Join (class_parts f (h l) (h d) t) '' '')) Map.empty std"
  let ?c1 = "if tabWidthClass f \<noteq> []
             then ?c0(Background \<mapsto> joinClasses (lookup ?c0 Background)
                                         (prefixClass (prefix f) (tabWidthClass f)))
             else ?c0"
  have c1: "lookup ?c1 u = Join (if u = Background then std_parts std f (h l) (h d) Background @ tab_part f
                                 else std_parts std f (h l) (h d) u) '' ''" for u
  proof (cases "tabWidthClass f = []")
    case True
    then show ?thesis by (simp add: lookup_loop tab_part_def)
  next
    case False
    show ?thesis
    proof (cases "u = Background")
      case True
      have "lookup ?c1 Background = joinClasses (lookup ?c0 Background)
                                         (prefixClass (prefix f) (tabWidthClass f))"
        using False by (simp add: lookup_def)
      then show ?thesis
        using False True tab_join[of "std_parts std f (h l) (h d) Background" "tabWidthClass f" "prefix f"]
        by (simp add: lookup_loop tab_part_def std_parts_nonempty)
    next
      case nb: False
      have "lookup ?c1 u = lookup ?c0 u"
        using False nb by (simp add: lookup_def)
      then show ?thesis using nb by (simp add: lookup_loop)
    qed
  qed
  have "lookup (classes std f h l (Some d)) t =
        lookup (?c1(PreWrapper \<mapsto> joinClasses (lookup ?c1 PreWrapper) (lookup ?c1 Background))) t"
    by (simp add: classes_def Let_def)
  also have "\<dots> = Join (mapping_parts std f (h l) (h d) t) '' ''"
  proof (cases "t = PreWrapper")
    case True
    have "joinClasses (lookup ?c1 PreWrapper) (lookup ?c1 Background)
          = Join (std_parts std f (h l) (h d) PreWrapper @ (std_parts std f (h l) (h d) Background @ tab_part f)) '' ''"
      unfolding c1 using joinClasses_Join[of "std_parts std f (h l) (h d) PreWrapper" "std_parts std f (h l) (h d) Background @ tab_part f"]
      by (simp add: std_parts_nonempty tab_part_nonempty)
    then show ?thesis using True by (simp add: lookup_def mapping_parts_def)
  next
    case False
    then have "lookup (?c1(PreWrapper \<mapsto> joinClasses (lookup ?c1 PreWrapper) (lookup ?c1 Background))) t = lookup ?c1 t"
      by (simp add: lookup_def)
    then show ?thesis using False c1[of t] by (simp add: mapping_parts_def)
  qed
  finally show ?thesis .
qed

declare hex_nat.simps [simp del] digits.simps [simp del] hl_advance.simps [simp del]

lemma ev_classes_fields:
  "ev_classes (entryValuesFrom le) (prefix f) = concat (map (light_field f le) fields)"
  by (simp add: ev_classes_def entryValuesFrom_def fields_def light_field_def)

lemma darkVariantClasses_fields:
  "darkVariantClasses f (entryValuesFrom le) (entryValuesFrom de)
     = concat (map (dark_field f le de) fields)"
  by (simp add: darkVariantClasses_def entryValuesFrom_def fields_def dark_field_def)

lemma class_parts_fields:
  "class_parts f L D t =
     prefixedClasses f (baseClasses f t) @
     concat (map (light_field f (lightEntry_of L t)) fields) @
     concat (map (dark_field f (lightEntry_of L t) (darkEntry_of D t)) fields)"
  by (simp add: class_parts_def Let_def ev_classes_fields darkVariantClasses_fields)

lemma classes_nil_dark: "classes std f h l None = classes std f h l (Some l)"
  by (simp add: classes_def)

lemma classes_dark_of: "classes std f h l d0 = classes std f h l (Some (dark_of l d0))"
  by (cases d0) (simp_all add: dark_of_def classes_def)

lemma mapping_parts_folded:
  "mapping_parts std f L D t = std_parts std f L D t @ folded_parts std f L D t"
  by (simp add: mapping_parts_def folded_parts_def)

lemma lookup_classes_std:
  assumes "t \<in> set std"
  shows "lookup (classes std f h l d0) t =
           Join (prefixedClasses f (baseClasses f t) @
                 concat (map (light_field f (lightEntry_of (h l) t)) fields) @
                 concat (map (dark_field f (lightEntry_of (h l) t)
                                (darkEntry_of (h (dark_of l d0)) t)) fields) @
                 folded_parts std f (h l) (h (dark_of l d0)) t) '' ''"
proof -
  have "lookup (classes std f h l d0) t
          = Join (mapping_parts std f (h l) (h (dark_of l d0)) t) '' ''"
    using classes_dark_of[of std f h l d0] lookup_classes[of std f h l "dark_of l d0" t] by simp
  then show ?thesis
    using assms by (simp add: mapping_parts_folded std_parts_def class_parts_fields)
qed

text \<open>
  Claim C2. For every standard token category and every pair of themes, the class string of
  the category is the join of the structural classes, the light classes and the dark-variant
  classes (followed, for Background and PreWrapper only, by the folded classes), where the
  light and dark parts are built field by field from the entries after background
  subtraction. For each of the five fields: if the dark entry has the field set (a colour
  that is set, a flag that is Yes), the dark part holds the dark-prefixed class of the dark
  value; if only the light entry has it set, the dark part holds exactly the reset class;
  if neither has it set, neither part holds a class for the field.
\<close>

theorem dark_variant_per_field:
  assumes "t \<in> set std"
  shows "lookup (classes std f h l d0) t =
           Join (prefixedClasses f (baseClasses f t) @
                 concat (map (light_field f (lightEntry_of (h l) t)) fields) @
                 concat (map (dark_field f (lightEntry_of (h l) t)
                                (darkEntry_of (h (dark_of l d0)) t)) fields) @
                 folded_parts std f (h l) (h (dark_of l d0)) t) '' ''
         \<and> set fields = UNIV
         \<and> (field_set fld (darkEntry_of (h (dark_of l d0)) t) \<longrightarrow>
              dark_field f (lightEntry_of (h l) t) (darkEntry_of (h (dark_of l d0)) t) fld
                = [''dark:'' @ prefix f @ field_class fld (darkEntry_of (h (dark_of l d0)) t)])
         \<and> (\<not> field_set fld (darkEntry_of (h (dark_of l d0)) t) \<and>
              field_set fld (lightEntry_of (h l) t) \<longrightarrow>
              dark_field f (lightEntry_of (h l) t) (darkEntry_of (h (dark_of l d0)) t) fld
                = [''dark:'' @ prefix f @ field_reset fld])
         \<and> (\<not> field_set fld (darkEntry_of (h (dark_of l d0)) t) \<and>
              \<not> field_set fld (lightEntry_of (h l) t) \<longrightarrow>
              light_field f (lightEntry_of (h l) t) fld = [] \<and>
              dark_field f (lightEntry_of (h l) t) (darkEntry_of (h (dark_of l d0)) t) fld = [])"
proof -
  have "set fields = UNIV"
  proof -
    have "x \<in> set fields" for x by (cases x) (simp_all add: fields_def)
    then show ?thesis by auto
  qed
  then show ?thesis
    using lookup_classes_std[OF assms]
    by (simp add: dark_field_def light_field_def darkClass_def prefixClass_eq)
qed

lemmas example_defs = example_std_def example_formatter_def New_def example_heap_def
  light_example_def dark_example_def no_style_def empty_store_def nil_slice_def

lemmas eval_defs = lightEntry_of_def darkEntry_of_def Sub_def IsSet_def Colour_String_def
  hex_nat.simps hex_digit_def prefixedClasses_def baseClasses_def prefixClass_def
  darkClass_def fields_def light_field_def dark_field_def folded_parts_def std_parts_def
  tab_part_def tabWidthClass_def dark_of_def class_parts_def entryValuesFrom_def
  ev_classes_def darkVariantClasses_def

theorem dark_variant_per_field_witness:
  "Tok 0 \<in> set example_std \<and>
   lookup (classes example_std example_formatter example_heap 0 (Some 1)) (Tok 0)
     = ''text-[#d73a49] font-bold dark:text-[#ff7b72] dark:font-normal''"
  using dark_variant_per_field[of "Tok 0" example_std example_formatter example_heap 0 "Some 1" FBold]
  by (simp add: example_defs eval_defs)

lemma Sub_field_eq:
  "field_eq fld s e \<Longrightarrow> \<not> field_set fld (Sub s e)"
  by (cases fld) (simp_all add: Sub_def IsSet_def)

lemma Sub_field_neq:
  "\<not> field_eq fld s e \<Longrightarrow>
     field_set fld (Sub s e) = field_set fld s \<and> field_class fld (Sub s e) = field_class fld s"
  by (cases fld) (auto simp: Sub_def IsSet_def)

text \<open>
  Claim C3 (amended). For a category other than Background the light entry is the theme's
  entry minus the light theme's Background entry, and the dark entry is the dark theme's
  entry minus the dark theme's Background entry, field by field: a field equal to the
  Background entry's corresponding field is unset after subtraction and yields no class
  for that entry (the dark part then holds at most the reset class owed to the light
  entry), a field that differs is kept as it is. For Background itself nothing is
  subtracted. In particular a category whose foreground colour equals the foreground
  colour of its theme's Background entry has no text class among its light classes, and
  a foreground colour that differs from it keeps its text class, whatever the background
  colour of the Background entry is.
\<close>

theorem background_subtraction:
  "(t \<noteq> Background \<and> field_eq fld (L t) (L Background) \<longrightarrow>
      \<not> field_set fld (lightEntry_of L t) \<and> light_field f (lightEntry_of L t) fld = [])
   \<and> (t \<noteq> Background \<and> field_eq fld (D t) (D Background) \<longrightarrow>
      \<not> field_set fld (darkEntry_of D t) \<and>
      dark_field f (lightEntry_of L t) (darkEntry_of D t) fld
        = (if field_set fld (lightEntry_of L t) then [''dark:'' @ prefix f @ field_reset fld]
           else []))
   \<and> (t \<noteq> Background \<and> \<not> field_eq fld (L t) (L Background) \<longrightarrow>
      field_set fld (lightEntry_of L t) = field_set fld (L t) \<and>
      field_class fld (lightEntry_of L t) = field_class fld (L t))
   \<and> (t \<noteq> Background \<and> \<not> field_eq fld (D t) (D Background) \<longrightarrow>
      field_set fld (darkEntry_of D t) = field_set fld (D t) \<and>
      field_class fld (darkEntry_of D t) = field_class fld (D t))
   \<and> lightEntry_of L Background = L Background
   \<and> darkEntry_of D Background = D Background
   \<and> (t \<noteq> Background \<and> Colour (L t) = Colour (L Background) \<longrightarrow>
      text_c (entryValuesFrom (lightEntry_of L t)) = [] \<and>
      (\<forall>c. prefix f @ ''text-['' @ c
             \<notin> set (ev_classes (entryValuesFrom (lightEntry_of L t)) (prefix f))))
   \<and> (t \<noteq> Background \<and> IsSet (Colour (L t)) \<and> Colour (L t) \<noteq> Colour (L Background) \<longrightarrow>
      prefix f @ ''text-['' @ Colour_String (Colour (L t)) @ '']''
        \<in> set (ev_classes (entryValuesFrom (lightEntry_of L t)) (prefix f)))
   \<and> (t \<in> set std \<longrightarrow>
      lookup (classes std f h l d0) t =
        Join (prefixedClasses f (baseClasses f t) @
              concat (map (light_field f (lightEntry_of (h l) t)) fields) @
              concat (map (dark_field f (lightEntry_of (h l) t)
                             (darkEntry_of (h (dark_of l d0)) t)) fields) @
              folded_parts std f (h l) (h (dark_of l d0)) t) '' '')"
proof -
  have a: "t \<noteq> Background \<Longrightarrow> lightEntry_of L t = Sub (L t) (L Background)"
    by (simp add: lightEntry_of_def)
  have b: "t \<noteq> Background \<Longrightarrow> darkEntry_of D t = Sub (D t) (D Background)"
    by (simp add: darkEntry_of_def)
  have c: "t \<noteq> Background \<and> Colour (L t) = Colour (L Background) \<longrightarrow>
      text_c (entryValuesFrom (lightEntry_of L t)) = [] \<and>
      (\<forall>c. prefix f @ ''text-['' @ c
             \<notin> set (ev_classes (entryValuesFrom (lightEntry_of L t)) (prefix f)))"
    by (auto simp: lightEntry_of_def Sub_def entryValuesFrom_def IsSet_def ev_classes_def
        prefixClass_eq)
  have d: "lightEntry_of L Background = L Background" "darkEntry_of D Background = D Background"
    by (simp_all add: lightEntry_of_def darkEntry_of_def)
  have k: "t \<noteq> Background \<and> IsSet (Colour (L t)) \<and> Colour (L t) \<noteq> Colour (L Background) \<longrightarrow>
      prefix f @ ''text-['' @ Colour_String (Colour (L t)) @ '']''
        \<in> set (ev_classes (entryValuesFrom (lightEntry_of L t)) (prefix f))"
    by (auto simp: lightEntry_of_def Sub_def entryValuesFrom_def IsSet_def ev_classes_def
        prefixClass_eq)
  show ?thesis
    using Sub_field_eq[of fld "L t" "L Background"] Sub_field_eq[of fld "D t" "D Background"]
      Sub_field_neq[of fld "L t" "L Background"] Sub_field_neq[of fld "D t" "D Background"]
      c d k lookup_classes_std[of t std f h l d0]
    by (simp add: a b light_field_def dark_field_def darkClass_def prefixClass_eq)
qed

theorem background_subtraction_witness:
  "Tok 1 \<noteq> Background \<and> field_eq FText (light_example (Tok 1)) (light_example Background)
   \<and> field_eq FText (dark_example (Tok 1)) (dark_example Background)
   \<and> Colour (light_example (Tok 1)) = Colour (light_example Background)
   \<and> Tok 1 \<in> set example_std
   \<and> light_field example_formatter (lightEntry_of light_example (Tok 1)) FText = []
   \<and> lookup (classes example_std example_formatter example_heap 0 (Some 1)) (Tok 1) = []
   \<and> lookup (classes example_std example_formatter example_heap 0 (Some 1)) Background
       = ''text-[#24292e] bg-[#ffffff] dark:text-[#e6edf3] dark:bg-[#0d1117]''"
  using background_subtraction[where t = "Tok 1" and fld = FText and L = light_example
      and D = dark_example and f = example_formatter and std = example_std
      and h = example_heap and l = 0 and ?d0.0 = "Some 1"]
    background_subtraction[where t = Background and fld = FText and L = light_example
      and D = dark_example and f = example_formatter and std = example_std
      and h = example_heap and l = 0 and ?d0.0 = "Some 1"]
  by (simp add: example_defs eval_defs)

lemma get_nil_dark: "get std f h c l None = get std f h c l (Some l)"
  by (simp add: get_def)

lemma darkVariant_same:
  "darkVariantClasses f v v = map (\<lambda>c. ''dark:'' @ c) (ev_classes v (prefix f))"
  by (simp add: darkVariantClasses_def ev_classes_def darkClass_def)

lemma no_reset_same:
  "darkClass f (field_reset fld)
     \<notin> set (darkVariantClasses f (entryValuesFrom e) (entryValuesFrom e))"
  by (cases fld; cases "Colour e"; cases "Background_colour e")
     (simp_all add: darkVariantClasses_def entryValuesFrom_def darkClass_def prefixClass_eq
       IsSet_def Colour_String_def)

text \<open>
  Claim C6. With no dark theme, get and classes behave as with the light theme given as the
  dark theme too. The dark entry of every category is then the light entry, the
  dark-variant classes are the light classes with the dark marker in front, in the same
  order, and no reset class is among them. On a new cache the class string of a standard
  category is the join of the structural classes, the light classes and their
  dark-prefixed duplicates (and the folded classes).
\<close>

theorem single_theme_mode:
  "get std f h c l None = get std f h c l (Some l)
   \<and> classes std f h l None = classes std f h l (Some l)
   \<and> darkEntry_of (h (dark_of l None)) t = lightEntry_of (h l) t
   \<and> darkVariantClasses f (entryValuesFrom (lightEntry_of (h l) t))
        (entryValuesFrom (darkEntry_of (h (dark_of l None)) t))
       = map (\<lambda>c. ''dark:'' @ c) (ev_classes (entryValuesFrom (lightEntry_of (h l) t)) (prefix f))
   \<and> ''dark:'' @ prefix f @ field_reset fld
        \<notin> set (darkVariantClasses f (entryValuesFrom (lightEntry_of (h l) t))
                 (entryValuesFrom (darkEntry_of (h (dark_of l None)) t)))
   \<and> (t \<in> set std \<longrightarrow>
        lookup (fst (get std f h newClassCache l None)) t =
          Join (prefixedClasses f (baseClasses f t) @
                ev_classes (entryValuesFrom (lightEntry_of (h l) t)) (prefix f) @
                map (\<lambda>c. ''dark:'' @ c)
                  (ev_classes (entryValuesFrom (lightEntry_of (h l) t)) (prefix f)) @
                folded_parts std f (h l) (h l) t) '' '')"
proof -
  have e: "darkEntry_of (h (dark_of l None)) t = lightEntry_of (h l) t"
    by (simp add: darkEntry_of_def lightEntry_of_def dark_of_def)
  have g: "fst (get std f h newClassCache l None) = classes std f h l None"
    by (simp add: get_def newClassCache_def Let_def classes_nil_dark)
  have v: "darkVariantClasses f (entryValuesFrom (lightEntry_of (h l) t))
        (entryValuesFrom (darkEntry_of (h (dark_of l None)) t))
       = map (\<lambda>c. ''dark:'' @ c) (ev_classes (entryValuesFrom (lightEntry_of (h l) t)) (prefix f))"
    by (simp only: e darkVariant_same)
  have r: "''dark:'' @ prefix f @ field_reset fld
        \<notin> set (darkVariantClasses f (entryValuesFrom (lightEntry_of (h l) t))
                 (entryValuesFrom (darkEntry_of (h (dark_of l None)) t)))"
    using no_reset_same[of f fld "lightEntry_of (h l) t"]
    by (simp add: e darkClass_def prefixClass_eq)
  have m: "t \<in> set std \<longrightarrow>
        lookup (fst (get std f h newClassCache l None)) t =
          Join (prefixedClasses f (baseClasses f t) @
                ev_classes (entryValuesFrom (lightEntry_of (h l) t)) (prefix f) @
                map (\<lambda>c. ''dark:'' @ c)
                  (ev_classes (entryValuesFrom (lightEntry_of (h l) t)) (prefix f)) @
                folded_parts std f (h l) (h l) t) '' ''"
    using lookup_classes_std[of t std f h l None]
    by (simp add: g e ev_classes_fields[symmetric] darkVariantClasses_fields[symmetric]
        darkVariant_same) (simp add: dark_of_def)
  note a = get_nil_dark[of std f h c l] classes_nil_dark[of std f h l]
  show ?thesis
    by (intro conjI) (fact a e v r m)+
qed

theorem single_theme_mode_witness:
  "Tok 0 \<in> set example_std \<and>
   lookup (fst (get example_std example_formatter example_heap newClassCache 0 None)) (Tok 0)
     = ''text-[#d73a49] font-bold dark:text-[#d73a49] dark:font-bold''"
proof -
  have m: "Tok 0 \<in> set example_std"
    by (simp add: example_std_def)
  have "lookup (fst (get example_std example_formatter example_heap newClassCache 0 None)) (Tok 0)
     = Join (prefixedClasses example_formatter (baseClasses example_formatter (Tok 0)) @
                ev_classes (entryValuesFrom (lightEntry_of (example_heap 0) (Tok 0)))
                  (prefix example_formatter) @
                map (\<lambda>c. ''dark:'' @ c)
                  (ev_classes (entryValuesFrom (lightEntry_of (example_heap 0) (Tok 0)))
                     (prefix example_formatter)) @
                folded_parts example_std example_formatter (example_heap 0) (example_heap 0)
                  (Tok 0)) '' ''"
    using m single_theme_mode[where t = "Tok 0" and std = example_std and f = example_formatter
      and h = example_heap and l = 0 and c = newClassCache and fld = FText]
    by blast
  then show ?thesis
    using m by (simp add: example_defs eval_defs)
qed

lemma digits_chars: "set (digits n) \<subseteq> set ''0123456789''"
proof (induction n rule: digits.induct)
  case (1 n)
  have m: "k < 10 \<Longrightarrow> ''0123456789'' ! k \<in> set ''0123456789''" for k
    by (rule nth_mem) simp
  show ?case
  proof (cases "n < 10")
    case True
    then show ?thesis
      using m[of n] by (subst digits.simps) simp
  next
    case False
    with 1 m[of "n mod 10"] show ?thesis
      by (subst digits.simps) simp
  qed
qed

lemma Itoa_no_d: "CHR ''d'' \<notin> set (Itoa n)"
  using digits_chars[of "nat n"] digits_chars[of "nat (- n)"]
  by (auto simp: Itoa_def)

lemma tab_class_count:
  "count_list (tab_class f n) CHR ''d'' = count_list (prefix f) CHR ''d''"
  using Itoa_no_d[of n] by (simp add: tab_class_def prefixClass_eq count_list_0_iff)

lemma dark_count:
  "count_list (darkClass f c) CHR ''d'' > count_list (prefix f) CHR ''d''"
  by (simp add: darkClass_def prefixClass_eq)

lemma tab_not_dark: "tab_class f n \<noteq> darkClass f c"
  using tab_class_count[of f n] dark_count[of f c] by auto

lemma tab_not_dark_variant: "tab_class f n \<notin> set (darkVariantClasses f lv dv)"
  using tab_not_dark[of f n] by (auto simp: darkVariantClasses_def)

lemma tab_not_light_from: "tab_class f n \<notin> set (ev_classes (entryValuesFrom e) (prefix f))"
  by (auto simp: ev_classes_def entryValuesFrom_def tab_class_def prefixClass_eq)

lemma tab_not_base: "tab_class f n \<notin> set (prefixedClasses f (baseClasses f t))"
  by (cases t) (auto simp: prefixedClasses_def baseClasses_def tab_class_def prefixClass_eq)

lemma tab_not_class_parts: "tab_class f n \<notin> set (class_parts f L D t)"
  by (simp add: class_parts_def Let_def tab_not_base tab_not_light_from tab_not_dark_variant)

lemma tab_not_std_parts: "tab_class f n \<notin> set (std_parts std f L D t)"
  by (simp add: std_parts_def tab_not_class_parts)

text \<open>
  Claim C9. When the tab width is neither 0 (never configured) nor 8 (the default), the
  class string of Background is the join of its own classes followed by the prefixed
  tab-size class as the last class, and the class string of PreWrapper is the join of its
  own classes, the classes of Background and the tab-size class. When the tab width is 0
  or 8, nothing is appended. The class string of every other category is the join of its
  own classes, and no category's own classes contain a prefixed tab-size class for any
  width.
\<close>

theorem tab_size_class:
  "(tabWidth f \<noteq> 0 \<and> tabWidth f \<noteq> 8 \<longrightarrow>
      lookup (classes std f h l d0) Background
        = Join (std_parts std f (h l) (h (dark_of l d0)) Background @
                [tab_class f (tabWidth f)]) '' ''
      \<and> lookup (classes std f h l d0) PreWrapper
        = Join (std_parts std f (h l) (h (dark_of l d0)) PreWrapper @
                std_parts std f (h l) (h (dark_of l d0)) Background @
                [tab_class f (tabWidth f)]) '' '')
   \<and> (tabWidth f = 0 \<or> tabWidth f = 8 \<longrightarrow>
      lookup (classes std f h l d0) Background
        = Join (std_parts std f (h l) (h (dark_of l d0)) Background) '' ''
      \<and> lookup (classes std f h l d0) PreWrapper
        = Join (std_parts std f (h l) (h (dark_of l d0)) PreWrapper @
                std_parts std f (h l) (h (dark_of l d0)) Background) '' '')
   \<and> (t \<noteq> Background \<and> t \<noteq> PreWrapper \<longrightarrow>
      lookup (classes std f h l d0) t = Join (std_parts std f (h l) (h (dark_of l d0)) t) '' '')
   \<and> tab_class f n \<notin> set (std_parts std f (h l) (h (dark_of l d0)) t)"
proof -
  have lk: "lookup (classes std f h l d0) u
          = Join (mapping_parts std f (h l) (h (dark_of l d0)) u) '' ''" for u
    using classes_dark_of[of std f h l d0] lookup_classes[of std f h l "dark_of l d0" u] by simp
  have t1: "tabWidth f \<noteq> 0 \<and> tabWidth f \<noteq> 8 \<Longrightarrow> tab_part f = [tab_class f (tabWidth f)]"
    by (simp add: tab_part_def tabWidthClass_def tab_class_def)
  have t2: "tabWidth f = 0 \<or> tabWidth f = 8 \<Longrightarrow> tab_part f = []"
    by (auto simp: tab_part_def tabWidthClass_def)
  show ?thesis
    using t1 t2 tab_not_std_parts[of f n std "h l" "h (dark_of l d0)" t]
    by (auto simp: lk mapping_parts_def)
qed

theorem tab_size_class_witness:
  "tabWidth (fst (New [TabWidth 4] empty_store)) \<noteq> 0
   \<and> tabWidth (fst (New [TabWidth 4] empty_store)) \<noteq> 8
   \<and> lookup (classes example_std (fst (New [TabWidth 4] empty_store)) example_heap 0 (Some 1))
       Background
     = ''text-[#24292e] bg-[#ffffff] dark:text-[#e6edf3] dark:bg-[#0d1117] [tab-size:4]''
   \<and> lookup (classes example_std (fst (New [TabWidth 4] empty_store)) example_heap 0 (Some 1))
       PreWrapper
     = ''text-[#24292e] bg-[#ffffff] dark:text-[#e6edf3] dark:bg-[#0d1117] [tab-size:4]''
   \<and> (tabWidth example_formatter = 0 \<or> tabWidth example_formatter = 8)
   \<and> lookup (classes example_std example_formatter example_heap 0 (Some 1)) Background
     = ''text-[#24292e] bg-[#ffffff] dark:text-[#e6edf3] dark:bg-[#0d1117]''
   \<and> Tok 0 \<noteq> Background \<and> Tok 0 \<noteq> PreWrapper"
  using tab_size_class[where f = "fst (New [TabWidth 4] empty_store)" and std = example_std
      and h = example_heap and l = 0 and ?d0.0 = "Some 1" and t = "Tok 0" and n = 4]
    tab_size_class[where f = example_formatter and std = example_std
      and h = example_heap and l = 0 and ?d0.0 = "Some 1" and t = "Tok 0" and n = 4]
  by (simp add: example_defs eval_defs TabWidth_def tab_class_def Itoa_def digits.simps)

lemma find_entry_Some:
  "find_entry es l d n = Some i \<Longrightarrow>
     i < n \<and> key (es ! i) = (l, d) \<and> (\<forall>j. i < j \<and> j < n \<longrightarrow> key (es ! j) \<noteq> (l, d))"
proof (induction n)
  case 0
  then show ?case by simp
next
  case (Suc n)
  show ?case
  proof (cases "light (es ! n) = l \<and> dark (es ! n) = d")
    case True
    with Suc.prems have "i = n" by simp
    with True show ?thesis by (simp add: key_def)
  next
    case False
    with Suc.prems have "find_entry es l d n = Some i" by simp
    from Suc.IH[OF this] have ih: "i < n" "key (es ! i) = (l, d)"
      "\<forall>j. i < j \<and> j < n \<longrightarrow> key (es ! j) \<noteq> (l, d)" by auto
    have "key (es ! j) \<noteq> (l, d)" if "i < j" "j < Suc n" for j
    proof (cases "j = n")
      case True
      with False show ?thesis by (auto simp: key_def)
    next
      case False
      with that ih(3) show ?thesis by auto
    qed
    with ih show ?thesis by auto
  qed
qed

lemma find_entry_None:
  "(find_entry es l d n = None) = (\<forall>j<n. key (es ! j) \<noteq> (l, d))"
  by (induction n) (auto simp: key_def less_Suc_eq)

lemma find_entry_None_set:
  "(find_entry es l d (length es) = None) = ((l, d) \<notin> set (map key es))"
proof -
  have "(\<forall>j<length es. key (es ! j) \<noteq> (l, d)) = ((l, d) \<notin> set (map key es))"
    by (metis (no_types, lifting) in_set_conv_nth length_map nth_map)
  then show ?thesis by (simp only: find_entry_None)
qed

lemma hit_shift:
  assumes "i < length es"
  shows "(take i es @ copy_go (drop i es) (drop (Suc i) es))[length es - Suc 0 := e]
           = take i es @ drop (Suc i) es @ [e]"
proof -
  have "copy_go (drop i es) (drop (Suc i) es) = drop (Suc i) es @ drop (length es - Suc i) (drop i es)"
    using assms by (simp add: copy_go_def)
  moreover have "drop (length es - Suc i) (drop i es) = [last es]"
  proof -
    have "drop (length es - Suc i) (drop i es) = drop (length es - 1) es"
      using assms by simp
    also have "\<dots> = [last es]"
      using assms by (metis One_nat_def append_butlast_last_id append_eq_conv_conj length_butlast
          list.size(3) not_less_zero)
    finally show ?thesis .
  qed
  ultimately have "take i es @ copy_go (drop i es) (drop (Suc i) es)
      = (take i es @ drop (Suc i) es) @ [last es]" by simp
  moreover have "length (take i es @ drop (Suc i) es) = length es - Suc 0"
    using assms by simp
  ultimately show ?thesis
    by (metis append.assoc list_update_length)
qed

lemma evict_shift:
  "es \<noteq> [] \<Longrightarrow> take (length es - Suc 0) (copy_go es (drop (Suc 0) es)) = tl es"
  by (cases es) (simp_all add: copy_go_def)

lemma take_drop_last:
  "es \<noteq> [] \<Longrightarrow> es = take (length es - Suc 0) es @ [es ! (length es - Suc 0)]"
  by (metis One_nat_def append_butlast_last_id butlast_conv_take last_conv_nth)

lemma get_entries:
  "entries (snd (get std f h c l d0)) =
     (case find_entry (entries c) l (dark_of l d0) (length (entries c)) of
        Some i \<Rightarrow> take i (entries c) @ drop (Suc i) (entries c) @ [entries c ! i]
      | None \<Rightarrow>
          (if length (entries c) \<ge> classCacheLimit then tl (entries c) else entries c) @
          [\<lparr> light = l, dark = dark_of l d0, cache = classes std f h l d0 \<rparr>])"
proof (cases "find_entry (entries c) l (dark_of l d0) (length (entries c))")
  case None
  have ne: "length (entries c) \<ge> classCacheLimit \<Longrightarrow> entries c \<noteq> []"
    by (auto simp: classCacheLimit_def)
  have "classes std f h l (Some (dark_of l d0)) = classes std f h l d0"
    using classes_dark_of[of std f h l d0] by simp
  with None ne show ?thesis
    by (simp add: get_def Let_def dark_of_def[symmetric] evict_shift)
next
  case (Some i)
  from find_entry_Some[OF Some] have i: "i < length (entries c)" by simp
  then have ne: "entries c \<noteq> []" by auto
  show ?thesis
  proof (cases "i = length (entries c) - 1")
    case True
    with Some ne show ?thesis
      using take_drop_last[OF ne] by (simp add: get_def Let_def dark_of_def[symmetric])
  next
    case False
    with Some i show ?thesis
      by (simp add: get_def Let_def dark_of_def[symmetric] hit_shift)
  qed
qed

lemma get_result:
  "fst (get std f h c l d0) =
     (case find_entry (entries c) l (dark_of l d0) (length (entries c)) of
        Some i \<Rightarrow> cache (entries c ! i)
      | None \<Rightarrow> classes std f h l d0)"
  using classes_dark_of[of std f h l d0]
  by (simp add: get_def Let_def dark_of_def[symmetric] split: option.splits)

lemma get_computed:
  "computed (snd (get std f h c l d0)) =
     (case find_entry (entries c) l (dark_of l d0) (length (entries c)) of
        Some i \<Rightarrow> computed c
      | None \<Rightarrow> computed c + 1)"
  by (simp add: get_def Let_def dark_of_def[symmetric] split: option.splits)

lemma remove1_nth:
  "distinct xs \<Longrightarrow> i < length xs \<Longrightarrow> remove1 (xs ! i) xs = take i xs @ drop (Suc i) xs"
proof -
  assume d: "distinct xs" and i: "i < length xs"
  have s: "xs = take i xs @ xs ! i # drop (Suc i) xs"
    using i by (rule id_take_nth_drop)
  have "xs ! i \<notin> set (take i xs)"
    using d i by (metis s distinct_append disjoint_iff list.set_intros(1) not_distinct_conv_prefix
        append.right_neutral)
  then have "remove1 (xs ! i) (take i xs @ xs ! i # drop (Suc i) xs) = take i xs @ drop (Suc i) xs"
    by (simp add: remove1_append)
  with s show ?thesis by simp
qed

lemma keys_get:
  assumes "distinct (map key (entries c))"
  shows "map key (entries (snd (get std f h c l d0))) =
     (if (l, dark_of l d0) \<in> set (map key (entries c))
      then remove1 (l, dark_of l d0) (map key (entries c)) @ [(l, dark_of l d0)]
      else (if length (entries c) \<ge> classCacheLimit then tl (map key (entries c))
            else map key (entries c)) @ [(l, dark_of l d0)])"
proof (cases "find_entry (entries c) l (dark_of l d0) (length (entries c))")
  case None
  then have "(l, dark_of l d0) \<notin> set (map key (entries c))"
    using find_entry_None_set[of "entries c" l "dark_of l d0"] by blast
  with None show ?thesis
    by (simp add: get_entries key_def map_tl)
next
  case (Some i)
  from find_entry_Some[OF Some]
  have i: "i < length (entries c)" and k: "key (entries c ! i) = (l, dark_of l d0)" by auto
  then have mem: "(l, dark_of l d0) \<in> set (map key (entries c))"
    by (metis length_map nth_map nth_mem)
  have "remove1 (map key (entries c) ! i) (map key (entries c))
          = take i (map key (entries c)) @ drop (Suc i) (map key (entries c))"
    using assms i by (intro remove1_nth) simp_all
  with i k have "remove1 (l, dark_of l d0) (map key (entries c))
          = map key (take i (entries c) @ drop (Suc i) (entries c))"
    by (simp add: take_map drop_map)
  with Some mem k show ?thesis
    by (simp add: get_entries)
qed

lemma get_hit_entries:
  assumes "distinct (map key (entries c))" "e \<in> set (entries c)" "key e = (l, dark_of l d0)"
  shows "entries (snd (get std f h c l d0)) = remove1 e (entries c) @ [e]
         \<and> fst (get std f h c l d0) = cache e
         \<and> computed (snd (get std f h c l d0)) = computed c"
proof -
  have "(l, dark_of l d0) \<in> set (map key (entries c))"
    using assms(2,3) by force
  then obtain i where f: "find_entry (entries c) l (dark_of l d0) (length (entries c)) = Some i"
    using find_entry_None_set[of "entries c" l "dark_of l d0"] by (cases "find_entry (entries c) l (dark_of l d0) (length (entries c))") auto
  from find_entry_Some[OF f]
  have i: "i < length (entries c)" and k: "key (entries c ! i) = (l, dark_of l d0)" by auto
  have "entries c ! i = e"
    using assms i k by (metis distinct_map inj_on_def nth_mem)
  moreover have "distinct (entries c)"
    using assms(1) by (simp add: distinct_map)
  ultimately show ?thesis
    using f i remove1_nth[of "entries c" i]
    by (simp add: get_entries get_result get_computed)
qed

lemma get_inv:
  assumes "distinct (map key (entries c))" "length (entries c) \<le> classCacheLimit"
  shows "distinct (map key (entries (snd (get std f h c l d0))))
         \<and> length (entries (snd (get std f h c l d0))) \<le> classCacheLimit"
proof -
  have len: "length (entries (snd (get std f h c l d0))) \<le> classCacheLimit"
  proof (cases "find_entry (entries c) l (dark_of l d0) (length (entries c))")
    case None
    with assms(2) show ?thesis
      by (auto simp: get_entries classCacheLimit_def)
  next
    case (Some i)
    from find_entry_Some[OF Some] have "i < length (entries c)" by simp
    with Some assms(2) show ?thesis
      by (simp add: get_entries)
  qed
  have "distinct (map key (entries (snd (get std f h c l d0))))"
  proof (cases "(l, dark_of l d0) \<in> set (map key (entries c))")
    case True
    with assms(1) show ?thesis
      by (simp only: keys_get[OF assms(1)] if_True) (simp add: distinct_remove1)
  next
    case False
    then have "(l, dark_of l d0) \<notin> set (tl (map key (entries c)))"
      by (metis list.set_sel(2) tl_Nil)
    with False assms(1) show ?thesis
      by (simp only: keys_get[OF assms(1)] if_False) (simp add: distinct_tl)
  qed
  with len show ?thesis by simp
qed

lemma get_length_le:
  "length (entries c) \<le> classCacheLimit \<Longrightarrow>
     length (entries (snd (get std f h c l d0))) \<le> classCacheLimit"
proof (cases "find_entry (entries c) l (dark_of l d0) (length (entries c))")
  case None
  assume "length (entries c) \<le> classCacheLimit"
  with None show ?thesis
    by (auto simp: get_entries classCacheLimit_def)
next
  case (Some i)
  assume a: "length (entries c) \<le> classCacheLimit"
  from find_entry_Some[OF Some] have "i < length (entries c)" by simp
  with Some a show ?thesis
    by (simp add: get_entries)
qed

lemma get_all_snoc:
  "get_all std f h c (qs @ [q]) = snd (get std f h (get_all std f h c qs) (fst q) (Some (snd q)))"
  by (simp add: get_all_def)

lemma get_all_length_le:
  "length (entries c) \<le> classCacheLimit \<Longrightarrow>
     length (entries (get_all std f h c qs)) \<le> classCacheLimit"
  by (induction qs rule: rev_induct) (simp_all add: get_all_snoc get_length_le, simp add: get_all_def)

lemma get_all_keys:
  "distinct qs \<Longrightarrow>
     map key (entries (get_all std f h newClassCache qs)) = drop (length qs - classCacheLimit) qs"
proof (induction qs rule: rev_induct)
  case Nil
  then show ?case by (simp add: get_all_def newClassCache_def)
next
  case (snoc q qs)
  let ?c = "get_all std f h newClassCache qs"
  from snoc have ih: "map key (entries ?c) = drop (length qs - classCacheLimit) qs"
    and q: "q \<notin> set qs" and d: "distinct qs" by auto
  have dk: "distinct (map key (entries ?c))"
    using ih d by simp
  have nm: "(fst q, dark_of (fst q) (Some (snd q))) \<notin> set (map key (entries ?c))"
    using q ih by (metis dark_of_def in_set_dropD option.simps(5) prod.collapse)
  have len: "length (entries ?c) = length qs - (length qs - classCacheLimit)"
    using ih by (metis length_drop length_map)
  have "map key (entries (snd (get std f h ?c (fst q) (Some (snd q)))))
        = (if length (entries ?c) \<ge> classCacheLimit then tl (map key (entries ?c))
            else map key (entries ?c)) @ [q]"
    using nm by (simp only: keys_get[OF dk] if_False) (simp add: dark_of_def)
  also have "\<dots> = drop (length (qs @ [q]) - classCacheLimit) (qs @ [q])"
  proof (cases "length qs \<ge> classCacheLimit")
    case True
    then have "length (entries ?c) \<ge> classCacheLimit" using len by (simp add: classCacheLimit_def)
    moreover have "tl (drop (length qs - classCacheLimit) qs) = drop (Suc (length qs) - classCacheLimit) qs"
      using True by (simp add: drop_Suc[symmetric] tl_drop Suc_diff_le)
    moreover have "Suc 0 - classCacheLimit = 0"
      by (simp add: classCacheLimit_def)
    ultimately show ?thesis using True ih by simp
  next
    case False
    then have "\<not> length (entries ?c) \<ge> classCacheLimit" using len by simp
    then show ?thesis using False ih by simp
  qed
  finally show ?case by (simp only: get_all_snoc)
qed

lemma get_last_entry:
  "\<exists>xs e. entries (snd (get std f h c l d0)) = xs @ [e] \<and> key e = (l, dark_of l d0)
          \<and> cache e = fst (get std f h c l d0)"
proof (cases "find_entry (entries c) l (dark_of l d0) (length (entries c))")
  case None
  then show ?thesis
    by (simp add: get_entries get_result key_def)
next
  case (Some i)
  from find_entry_Some[OF Some] have "key (entries c ! i) = (l, dark_of l d0)" by simp
  with Some show ?thesis
    by (simp add: get_entries get_result)
qed

lemma find_entry_last:
  "key e = (l, d) \<Longrightarrow> find_entry (xs @ [e]) l d (length (xs @ [e])) = Some (length xs)"
  by (simp add: key_def)

lemma get_top:
  assumes "entries c = xs @ [e]" "key e = (l, dark_of l d0)"
  shows "get std f h c l d0 = (cache e, c)"
  using assms find_entry_last[of e l "dark_of l d0" xs]
  by (simp add: get_def Let_def dark_of_def[symmetric])

lemma get_twice:
  "get std2 f2 h2 (snd (get std f h c l d0)) l d0
     = (fst (get std f h c l d0), snd (get std f h c l d0))"
proof -
  obtain xs e where "entries (snd (get std f h c l d0)) = xs @ [e]"
    "key e = (l, dark_of l d0)" "cache e = fst (get std f h c l d0)"
    using get_last_entry[of std f h c l d0] by blast
  then show ?thesis
    using get_top[of "snd (get std f h c l d0)" xs e l d0 std2 f2 h2] by simp
qed

text \<open>
  Claim C5. Two gets in succession for the same pair of theme pointers return the same
  mapping, and the second get leaves the cache as the first left it, whatever formatter,
  style heap and table of standard types the second get is run with: nothing is
  recomputed and the counter of computations does not move. A hit returns the stored
  mapping, leaves the counter as it is and only permutes the entries, moving the entry
  that was hit to the end. A miss computes the mapping once.
\<close>

theorem cache_get_idempotent:
  "fst (get std2 f2 h2 (snd (get std f h c l d0)) l d0) = fst (get std f h c l d0)
   \<and> snd (get std2 f2 h2 (snd (get std f h c l d0)) l d0) = snd (get std f h c l d0)
   \<and> (find_entry (entries c) l (dark_of l d0) (length (entries c)) = Some i \<longrightarrow>
        fst (get std f h c l d0) = cache (entries c ! i)
        \<and> computed (snd (get std f h c l d0)) = computed c
        \<and> entries (snd (get std f h c l d0))
            = take i (entries c) @ drop (Suc i) (entries c) @ [entries c ! i]
        \<and> mset (entries (snd (get std f h c l d0))) = mset (entries c))
   \<and> (find_entry (entries c) l (dark_of l d0) (length (entries c)) = None \<longrightarrow>
        fst (get std f h c l d0) = classes std f h l d0
        \<and> computed (snd (get std f h c l d0)) = computed c + 1)"
proof -
  have m: "mset (take i (entries c) @ drop (Suc i) (entries c) @ [entries c ! i]) = mset (entries c)"
    if "find_entry (entries c) l (dark_of l d0) (length (entries c)) = Some i"
  proof -
    from find_entry_Some[OF that] have "i < length (entries c)" by simp
    then have "entries c = take i (entries c) @ entries c ! i # drop (Suc i) (entries c)"
      by (rule id_take_nth_drop)
    then have "mset (entries c)
        = mset (take i (entries c) @ entries c ! i # drop (Suc i) (entries c))" by simp
    then show ?thesis by simp
  qed
  show ?thesis
    using m by (simp add: get_twice get_entries get_result get_computed)
qed

theorem cache_get_idempotent_witness:
  "find_entry (entries (example_cache 3)) 1 (dark_of 1 None) (length (entries (example_cache 3)))
     = Some 1
   \<and> fst (get example_std example_formatter example_heap (example_cache 3) 1 None)
       = cache (entries (example_cache 3) ! 1)
   \<and> computed (snd (get example_std example_formatter example_heap (example_cache 3) 1 None))
       = computed (example_cache 3)
   \<and> snd (get [] example_formatter example_heap
        (snd (get example_std example_formatter example_heap (example_cache 3) 1 None)) 1 None)
       = snd (get example_std example_formatter example_heap (example_cache 3) 1 None)"
proof -
  have hyp: "find_entry (entries (example_cache 3)) 1 (dark_of 1 None)
               (length (entries (example_cache 3))) = Some 1"
    by (simp add: example_cache_def dark_of_def upt_rec)
  show ?thesis
    using hyp cache_get_idempotent[where c = "example_cache 3" and l = 1 and ?d0.0 = None
      and i = 1 and std = example_std and f = example_formatter and h = example_heap
      and ?std2.0 = "[]" and ?f2.0 = example_formatter and ?h2.0 = example_heap]
    by blast
qed

lemma get_miss_entries:
  assumes "(l, dark_of l d0) \<notin> set (map key (entries c))"
  shows "entries (snd (get std f h c l d0)) =
           (if length (entries c) \<ge> classCacheLimit then tl (entries c) else entries c) @
           [\<lparr> light = l, dark = dark_of l d0, cache = classes std f h l d0 \<rparr>]"
  using assms find_entry_None_set[of "entries c" l "dark_of l d0"]
  by (simp add: get_entries)

lemma get_protect:
  assumes d: "distinct (map key (entries c))"
    and e: "e \<in> set (entries c)" "key e = (l, dark_of l d0)"
    and full: "length (entries c) = classCacheLimit"
    and new: "(l2, dark_of l2 d2) \<notin> set (map key (entries c))"
  shows "entries (snd (get std f h (snd (get std f h c l d0)) l2 d2))
           = tl (remove1 e (entries c)) @
             [e, \<lparr> light = l2, dark = dark_of l2 d2, cache = classes std f h l2 d2 \<rparr>]"
proof -
  let ?c1 = "snd (get std f h c l d0)"
  have e1: "entries ?c1 = remove1 e (entries c) @ [e]"
    using get_hit_entries[OF d e] by simp
  have len: "length (remove1 e (entries c)) = classCacheLimit - 1"
    using e(1) full by (simp add: length_remove1)
  then have ne: "remove1 e (entries c) \<noteq> []"
    by (auto simp: classCacheLimit_def)
  have "set (map key (entries ?c1)) \<subseteq> set (map key (entries c))"
    using e(1) set_remove1_subset[of e "entries c"] by (auto simp: e1)
  with new have miss: "(l2, dark_of l2 d2) \<notin> set (map key (entries ?c1))" by blast
  have "length (entries ?c1) \<ge> classCacheLimit"
    using len by (simp add: e1 classCacheLimit_def)
  then show ?thesis
    using ne by (simp add: get_miss_entries[OF miss] e1)
qed

text \<open>
  Claim C4. The class cache is a strict LRU store of capacity 32. Starting from a cache with
  distinct keys and at most 32 entries, every get, and every sequence of gets, leaves at
  most 32 entries (and distinct keys); a miss on a full cache drops the least recently
  used entry (the head) and appends the new one; a miss on a cache that is not full only
  appends; a hit moves the entry to the most recently used position and evicts nothing; a
  hit on a full cache followed by a miss keeps the entry that was hit and evicts the head
  of the rest; and after gets for any list of distinct pairs on a new cache, the cache
  holds exactly the last 32 pairs, oldest first.
\<close>

theorem class_cache_lru:
  assumes "distinct (map key (entries c))" and "length (entries c) \<le> classCacheLimit"
  shows "classCacheLimit = 32
    \<and> length (entries (snd (get std f h c l d0))) \<le> classCacheLimit
    \<and> distinct (map key (entries (snd (get std f h c l d0))))
    \<and> length (entries (get_all std f h c qs)) \<le> classCacheLimit
    \<and> ((l, dark_of l d0) \<notin> set (map key (entries c)) \<and> length (entries c) = classCacheLimit
         \<longrightarrow> entries (snd (get std f h c l d0)) =
               tl (entries c) @
               [\<lparr> light = l, dark = dark_of l d0, cache = classes std f h l d0 \<rparr>])
    \<and> ((l, dark_of l d0) \<notin> set (map key (entries c)) \<and> length (entries c) < classCacheLimit
         \<longrightarrow> entries (snd (get std f h c l d0)) =
               entries c @
               [\<lparr> light = l, dark = dark_of l d0, cache = classes std f h l d0 \<rparr>])
    \<and> (e \<in> set (entries c) \<and> key e = (l, dark_of l d0)
         \<longrightarrow> entries (snd (get std f h c l d0)) = remove1 e (entries c) @ [e])
    \<and> (e \<in> set (entries c) \<and> key e = (l, dark_of l d0) \<and>
        length (entries c) = classCacheLimit \<and>
        (l2, dark_of l2 d2) \<notin> set (map key (entries c))
         \<longrightarrow> entries (snd (get std f h (snd (get std f h c l d0)) l2 d2))
               = tl (remove1 e (entries c)) @
                 [e, \<lparr> light = l2, dark = dark_of l2 d2, cache = classes std f h l2 d2 \<rparr>])
    \<and> (distinct ks \<longrightarrow>
         map key (entries (get_all std f h newClassCache ks))
           = drop (length ks - classCacheLimit) ks)"
  using get_inv[OF assms, of std f h l d0] get_all_length_le[OF assms(2), of std f h qs]
    get_miss_entries[of l d0 c std f h] get_hit_entries[OF assms(1), of e l d0 std f h]
    get_protect[OF assms(1), of e l d0 l2 d2 std f h] get_all_keys[of ks std f h]
  by (simp add: classCacheLimit_def)

lemma example_cache_distinct: "distinct (map key (entries (example_cache n)))"
  by (simp add: example_cache_def distinct_map inj_on_def key_def)

lemma example_cache_keys: "map key (entries (example_cache n)) = map (\<lambda>i. (i, i)) [0..<n]"
  by (simp add: example_cache_def key_def comp_def)

theorem class_cache_lru_witness:
  "distinct (map key (entries (example_cache 32)))
   \<and> length (entries (example_cache 32)) \<le> classCacheLimit
   \<and> (40, dark_of 40 None) \<notin> set (map key (entries (example_cache 32)))
   \<and> length (entries (example_cache 32)) = classCacheLimit
   \<and> entries (snd (get example_std example_formatter example_heap (example_cache 32) 40 None))
       = tl (entries (example_cache 32)) @
         [\<lparr> light = 40, dark = dark_of 40 None,
            cache = classes example_std example_formatter example_heap 40 None \<rparr>]
   \<and> \<lparr> light = 0, dark = 0, cache = Map.empty \<rparr> \<in> set (entries (example_cache 32))
   \<and> key \<lparr> light = 0, dark = 0, cache = Map.empty \<rparr> = (0, dark_of 0 None)
   \<and> entries (snd (get example_std example_formatter example_heap
        (snd (get example_std example_formatter example_heap (example_cache 32) 0 None)) 40 None))
       = tl (remove1 \<lparr> light = 0, dark = 0, cache = Map.empty \<rparr> (entries (example_cache 32))) @
         [\<lparr> light = 0, dark = 0, cache = Map.empty \<rparr>,
          \<lparr> light = 40, dark = dark_of 40 None,
            cache = classes example_std example_formatter example_heap 40 None \<rparr>]"
proof -
  have h1: "distinct (map key (entries (example_cache 32)))"
    by (rule example_cache_distinct)
  have h2: "length (entries (example_cache 32)) \<le> classCacheLimit"
    "length (entries (example_cache 32)) = classCacheLimit"
    by (simp_all add: example_cache_def classCacheLimit_def)
  have h3: "(40, dark_of 40 None) \<notin> set (map key (entries (example_cache 32)))"
    by (auto simp: example_cache_keys dark_of_def)
  have h4: "\<lparr> light = 0, dark = 0, cache = Map.empty \<rparr> \<in> set (entries (example_cache 32))"
    by (auto simp: example_cache_def)
  have h5: "key \<lparr> light = 0, dark = 0, cache = Map.empty \<rparr> = (0, dark_of 0 None)"
    by (simp add: key_def dark_of_def)
  show ?thesis
    using h1 h2 h3 h4 h5
      class_cache_lru[OF h1 h2(1), where l = 40 and ?d0.0 = None and std = example_std
        and f = example_formatter and h = example_heap and qs = "[]" and ks = "[]"
        and ?l2.0 = 40 and ?d2.0 = None and e = "\<lparr> light = 0, dark = 0, cache = Map.empty \<rparr>"]
      class_cache_lru[OF h1 h2(1), where l = 0 and ?d0.0 = None and std = example_std
        and f = example_formatter and h = example_heap and qs = "[]" and ks = "[]"
        and ?l2.0 = 40 and ?d2.0 = None and e = "\<lparr> light = 0, dark = 0, cache = Map.empty \<rparr>"]
    by blast
qed

lemma hl_advance_spec:
  "hl_advance hr hi line nx = (i, next) \<Longrightarrow>
     hi \<le> i \<and> (\<forall>j. hi \<le> j \<and> j < i \<longrightarrow> j < length hr \<and> snd (hr ! j) < line) \<and>
     (i < length hr \<longrightarrow> line \<le> snd (hr ! i)) \<and> next = (nx \<or> hi < i)"
proof (induction hr hi line nx rule: hl_advance.induct)
  case (1 hr hi line nx)
  show ?case
  proof (cases "hi < length hr \<and> line > snd (hr ! hi)")
    case True
    with "1.prems" have r: "hl_advance hr (hi + 1) line True = (i, next)"
      by (subst (asm) hl_advance.simps) simp
    from "1.IH"[OF True r]
    have ih: "hi + 1 \<le> i"
      "\<forall>j. hi + 1 \<le> j \<and> j < i \<longrightarrow> j < length hr \<and> snd (hr ! j) < line"
      "i < length hr \<longrightarrow> line \<le> snd (hr ! i)" "next" by auto
    have "j < length hr \<and> snd (hr ! j) < line" if "hi \<le> j" "j < i" for j
    proof (cases "j = hi")
      case True
      with \<open>hi < length hr \<and> line > snd (hr ! hi)\<close> show ?thesis by simp
    next
      case False
      with that ih(2) show ?thesis by auto
    qed
    with ih show ?thesis by auto
  next
    case False
    with "1.prems" have "i = hi" "next = nx"
      by (subst (asm) hl_advance.simps, auto)+
    with False show ?thesis by auto
  qed
qed

lemma shouldHighlight_correct:
  assumes s: "sorted (map fst hr)" and k: "skipped hr hi line"
    and r: "shouldHighlight hr hi line = (hl, next)"
  shows "hl = in_ranges hr line"
    and "line \<le> line2 \<Longrightarrow> skipped hr (if next then hi + 1 else hi) line2"
proof -
  obtain i nx where a: "hl_advance hr hi line False = (i, nx)"
    by (cases "hl_advance hr hi line False")
  from hl_advance_spec[OF a]
  have hi: "hi \<le> i" and below: "\<forall>j. hi \<le> j \<and> j < i \<longrightarrow> j < length hr \<and> snd (hr ! j) < line"
    and stop: "i < length hr \<longrightarrow> line \<le> snd (hr ! i)" and nx: "nx = (hi < i)" by auto
  from r a have hl: "hl = (i < length hr \<and> fst (hr ! i) \<le> line \<and> line \<le> snd (hr ! i))"
    and nxt: "next = nx"
    by (auto simp: shouldHighlight_def Let_def split: if_splits)
  have all_below: "snd (hr ! j) < line" if "j < i" "j < length hr" for j
  proof (cases "j < hi")
    case True
    with k that show ?thesis by (simp add: skipped_def)
  next
    case False
    with that below show ?thesis by auto
  qed
  show "hl = in_ranges hr line"
  proof
    assume hl
    with hl have "i < length hr" "fst (hr ! i) \<le> line \<and> line \<le> snd (hr ! i)" by auto
    then show "in_ranges hr line"
      unfolding in_ranges_def list_ex_iff using nth_mem by blast
  next
    assume "in_ranges hr line"
    then obtain j where j: "j < length hr" "fst (hr ! j) \<le> line" "line \<le> snd (hr ! j)"
      unfolding in_ranges_def list_ex_iff by (metis in_set_conv_nth)
    have ij: "i \<le> j"
    proof (rule ccontr)
      assume "\<not> i \<le> j"
      then have "snd (hr ! j) < line" using all_below[of j] j(1) by simp
      with j(3) show False by simp
    qed
    with j(1) have il: "i < length hr" by simp
    have "fst (hr ! i) \<le> fst (hr ! j)"
      using s ij j(1) il by (metis length_map nth_map sorted_iff_nth_mono)
    with j(2) stop il show hl by (simp add: hl)
  qed
  show "skipped hr (if next then hi + 1 else hi) line2" if "line \<le> line2"
    unfolding skipped_def
  proof (intro allI impI)
    fix j assume j: "j < (if next then hi + 1 else hi) \<and> j < length hr"
    have "j < i \<or> j < hi" using j nxt nx by (auto split: if_splits)
    then have "snd (hr ! j) < line"
      using all_below[of j] j k by (auto simp: skipped_def)
    with that show "snd (hr ! j) < line2" by simp
  qed
qed

lemma code_lines_correct:
  "sorted (map fst hr) \<Longrightarrow> sorted (map fst lts) \<Longrightarrow>
   (lts \<noteq> [] \<Longrightarrow> skipped hr hi (fst (hd lts))) \<Longrightarrow>
   code_lines f cmap hr ld wt hi lts =
     concat (map (\<lambda>(line, tokens). code_line f cmap ld wt (in_ranges hr line) line tokens) lts)"
proof (induction lts arbitrary: hi)
  case Nil
  then show ?case by simp
next
  case (Cons a lts)
  obtain line tokens where a: "a = (line, tokens)" by (cases a)
  obtain hl nx where r: "shouldHighlight hr hi line = (hl, nx)"
    by (cases "shouldHighlight hr hi line")
  from Cons.prems(3) a have k: "skipped hr hi line" by simp
  note c = shouldHighlight_correct[OF Cons.prems(1) k r]
  have srt: "sorted (map fst lts)" using Cons.prems(2) by simp
  have nxt: "lts \<noteq> [] \<Longrightarrow> skipped hr (if nx then hi + 1 else hi) (fst (hd lts))"
  proof -
    assume ne: "lts \<noteq> []"
    then have "line \<le> fst (hd lts)"
      using Cons.prems(2) a by (cases lts) auto
    then show ?thesis by (rule c(2))
  qed
  from Cons.IH[OF Cons.prems(1) srt nxt] r c(1) a show ?case
    by simp
qed

lemma table_lines_correct:
  "sorted (map fst hr) \<Longrightarrow> sorted ls \<Longrightarrow>
   (ls \<noteq> [] \<Longrightarrow> skipped hr hi (hd ls)) \<Longrightarrow>
   table_lines f cmap hr ld hi ls =
     concat (map (\<lambda>line. table_line f cmap ld (in_ranges hr line) line) ls)"
proof (induction ls arbitrary: hi)
  case Nil
  then show ?case by simp
next
  case (Cons line ls)
  obtain hl nx where r: "shouldHighlight hr hi line = (hl, nx)"
    by (cases "shouldHighlight hr hi line")
  from Cons.prems(3) have k: "skipped hr hi line" by simp
  note c = shouldHighlight_correct[OF Cons.prems(1) k r]
  have srt: "sorted ls" using Cons.prems(2) by simp
  have nxt: "ls \<noteq> [] \<Longrightarrow> skipped hr (if nx then hi + 1 else hi) (hd ls)"
  proof -
    assume ne: "ls \<noteq> []"
    then have "line \<le> hd ls"
      using Cons.prems(2) by (cases ls) auto
    then show ?thesis by (rule c(2))
  qed
  from Cons.IH[OF Cons.prems(1) srt nxt] r c(1) show ?case
    by simp
qed

lemma skipped_0: "skipped hr 0 line"
  by (simp add: skipped_def)

lemma read_write_slice:
  "off r + len r \<le> length (st (arr r)) \<Longrightarrow> length xs = len r \<Longrightarrow>
     read_slice (write_slice st r xs) r = xs"
  by (simp add: read_slice_def write_slice_def)

lemma in_ranges_mset:
  "mset xs = mset ys \<Longrightarrow> in_ranges xs line = in_ranges ys line"
  unfolding in_ranges_def list_ex_iff by (metis mset_eq_setD)

lemma sorts_by_start_by_start: "sorts_by_start by_start"
  by (simp add: sorts_by_start_def by_start_def)

lemma HighlightLines_ranges:
  assumes "sorts_by_start srt" "off r + len r \<le> length (st (arr r))"
  shows "ranges_of (fst (HighlightLines srt r (f, st))) (snd (HighlightLines srt r (f, st)))
           = srt (read_slice st r)"
proof -
  have "length (srt (read_slice st r)) = length (read_slice st r)"
    using assms(1) by (metis sorts_by_start_def size_mset)
  also have "\<dots> = len r"
    using assms(2) by (simp add: read_slice_def)
  finally show ?thesis
    using assms(2) read_write_slice[where r = r and st = st and xs = "srt (read_slice st r)"]
    by (simp add: HighlightLines_def ranges_of_def)
qed

lemma line_numbers_sorted:
  assumes "- (2 ^ 63) \<le> baseLineNumber f" "baseLineNumber f + int n \<le> 2 ^ 63"
  shows "sorted (line_numbers f n)"
proof -
  have "int64 (baseLineNumber f + int i) = baseLineNumber f + int i" if "i < n" for i
  proof -
    have "0 \<le> baseLineNumber f + int i + 2 ^ 63" "baseLineNumber f + int i + 2 ^ 63 < 2 ^ 64"
      using assms that by auto
    then show ?thesis by (simp add: int64_def)
  qed
  then have "line_numbers f n = map (\<lambda>i. baseLineNumber f + int i) [0..<n]"
    by (simp add: line_numbers_def)
  then show ?thesis
    by (simp add: sorted_map sorted_wrt_iff_nth_less)
qed

text \<open>
  Claim C10. HighlightLines stores the caller's slice header itself in the formatter and sorts
  the window of the caller's array in place: after the option has run, the caller's slice
  shows the sorted permutation of what it showed before, the rest of that array and all
  other arrays are unchanged, the array differs from what it was whenever sorting changes
  the order, and the ranges the formatter reads in any later store are what the caller's
  slice shows in that store.
\<close>

theorem highlight_lines_sorts_in_place:
  assumes "sorts_by_start srt" and "off r + len r \<le> length (st (arr r))"
  shows "highlightRanges (fst (HighlightLines srt r (f, st))) = r
    \<and> read_slice (snd (HighlightLines srt r (f, st))) r = srt (read_slice st r)
    \<and> mset (read_slice (snd (HighlightLines srt r (f, st))) r) = mset (read_slice st r)
    \<and> sorted (map fst (read_slice (snd (HighlightLines srt r (f, st))) r))
    \<and> (a \<noteq> arr r \<longrightarrow> snd (HighlightLines srt r (f, st)) a = st a)
    \<and> take (off r) (snd (HighlightLines srt r (f, st)) (arr r)) = take (off r) (st (arr r))
    \<and> drop (off r + len r) (snd (HighlightLines srt r (f, st)) (arr r))
        = drop (off r + len r) (st (arr r))
    \<and> (srt (read_slice st r) \<noteq> read_slice st r
         \<longrightarrow> snd (HighlightLines srt r (f, st)) (arr r) \<noteq> st (arr r))
    \<and> ranges_of (fst (HighlightLines srt r (f, st))) st2 = read_slice st2 r"
proof -
  let ?st = "snd (HighlightLines srt r (f, st))"
  have l: "length (srt (read_slice st r)) = len r"
  proof -
    have "length (srt (read_slice st r)) = length (read_slice st r)"
      using assms(1) by (metis sorts_by_start_def size_mset)
    then show ?thesis using assms(2) by (simp add: read_slice_def)
  qed
  have w: "?st = write_slice st r (srt (read_slice st r))"
    by (simp add: HighlightLines_def)
  have rd: "read_slice ?st r = srt (read_slice st r)"
    using assms(2) l read_write_slice[where r = r and st = st and xs = "srt (read_slice st r)"]
    by (simp add: w)
  have ms: "mset (read_slice ?st r) = mset (read_slice st r)"
    "sorted (map fst (read_slice ?st r))"
    using assms(1) by (simp_all add: rd sorts_by_start_def)
  have fr: "a \<noteq> arr r \<longrightarrow> ?st a = st a"
    by (simp add: w write_slice_def)
  have tk: "take (off r) (?st (arr r)) = take (off r) (st (arr r))"
    using assms(2) by (simp add: w write_slice_def)
  have dr: "drop (off r + len r) (?st (arr r)) = drop (off r + len r) (st (arr r))"
    using assms(2) l by (simp add: w write_slice_def)
  have ch: "srt (read_slice st r) \<noteq> read_slice st r \<longrightarrow> ?st (arr r) \<noteq> st (arr r)"
  proof
    assume d: "srt (read_slice st r) \<noteq> read_slice st r"
    show "?st (arr r) \<noteq> st (arr r)"
    proof
      assume "?st (arr r) = st (arr r)"
      then have "read_slice ?st r = read_slice st r" by (simp add: read_slice_def)
      with rd d show False by simp
    qed
  qed
  have f1: "highlightRanges (fst (HighlightLines srt r (f, st))) = r"
    by (simp add: HighlightLines_def)
  then have ro: "ranges_of (fst (HighlightLines srt r (f, st))) st2 = read_slice st2 r"
    by (simp add: ranges_of_def)
  show ?thesis
    using f1 rd ms fr tk dr ch ro by blast
qed

theorem highlight_lines_sorts_in_place_witness:
  "sorts_by_start by_start
   \<and> off example_slice + len example_slice \<le> length (example_store (arr example_slice))
   \<and> example_store 1 = [(10, 11), (3, 5)]
   \<and> snd (HighlightLines by_start example_slice (example_formatter, example_store)) 1
       = [(3, 5), (10, 11)]
   \<and> highlightRanges (fst (HighlightLines by_start example_slice
                              (example_formatter, example_store))) = example_slice
   \<and> read_slice (snd (HighlightLines by_start example_slice (example_formatter, example_store)))
        example_slice = by_start (read_slice example_store example_slice)"
proof -
  have h1: "sorts_by_start by_start"
    by (rule sorts_by_start_by_start)
  have h2: "off example_slice + len example_slice \<le> length (example_store (arr example_slice))"
    by (simp add: example_slice_def example_store_def)
  have e: "example_store 1 = [(10, 11), (3, 5)]"
    by (simp add: example_store_def)
  have s: "snd (HighlightLines by_start example_slice (example_formatter, example_store)) 1
       = [(3, 5), (10, 11)]"
    by (simp add: HighlightLines_def write_slice_def read_slice_def example_slice_def
        example_store_def by_start_def)
  show ?thesis
    using h1 h2 e s
      highlight_lines_sorts_in_place[where srt = by_start and r = example_slice
        and st = example_store and f = example_formatter and a = 0
        and ?st2.0 = example_store]
    by blast
qed

lemma well_escaped_char: "well_escaped (escape_char c @ r) = well_escaped r"
  by (simp add: escape_char_def)

lemma well_escaped_EscapeString: "well_escaped (EscapeString s)"
  by (induction s) (simp_all add: EscapeString_def well_escaped_char)

lemma EscapeString_append: "EscapeString (a @ b) = EscapeString a @ EscapeString b"
  by (simp add: EscapeString_def)

lemma escape_char_safe:
  "set (escape_char c) \<inter> {CHR ''<'', CHR ''>'', CHR 0x22, CHR 0x27} = {}"
  by (simp add: escape_char_def)

lemma EscapeString_safe:
  "set (EscapeString s) \<inter> {CHR ''<'', CHR ''>'', CHR 0x22, CHR 0x27} = {}"
proof (induction s)
  case Nil
  then show ?case by (simp add: EscapeString_def)
next
  case (Cons c s)
  have "EscapeString (c # s) = escape_char c @ EscapeString s"
    by (simp add: EscapeString_def)
  with Cons escape_char_safe[of c] show ?case
    by (simp only: set_append Int_Un_distrib2) simp
qed

text \<open>
  Claim C1 (amended). Format returns nil for every sink, whether or not its writes
  fail: the error of every write is dropped, every payload of the render is written in
  order, and there are always at least two payloads.
\<close>

theorem format_never_fails:
  "fst (Format std split f st h c w s style tokens) = None
   \<and> fst (snd (Format std split f st h c w s style tokens))
       = foldl (\<lambda>s1 x. fst (w s1 x)) s
           (html_writes split f st (fst (get std f h c style (darkStyle f))) tokens)
   \<and> snd (snd (Format std split f st h c w s style tokens))
       = snd (get std f h c style (darkStyle f))
   \<and> 2 \<le> length (html_writes split f st cmap tokens)"
  by (simp add: Format_def writeHTML_def Fprint_def html_writes_def Let_def split: prod.splits)

lemma space_len_Nil: "space_len [] = 0"
  by (simp add: space_len_def)

lemma space_len_ascii:
  "c \<notin> set [CHR 0xC2, CHR 0xE1, CHR 0xE2, CHR 0xE3] \<Longrightarrow>
     space_len (c # cs) =
       (if c \<in> set [CHR 0x09, CHR 0x0A, CHR 0x0B, CHR 0x0C, CHR 0x0D, CHR 0x20] then 1 else 0)"
  by (simp add: space_len_def)

lemma hl_scan_correct:
  "sorted (map fst hr) \<Longrightarrow> sorted ls \<Longrightarrow> (ls \<noteq> [] \<Longrightarrow> skipped hr hi (hd ls)) \<Longrightarrow>
     hl_scan hr hi ls = map (in_ranges hr) ls"
proof (induction ls arbitrary: hi)
  case Nil
  then show ?case by simp
next
  case (Cons line ls)
  obtain hl nx where r: "shouldHighlight hr hi line = (hl, nx)"
    by (cases "shouldHighlight hr hi line")
  from Cons.prems(3) have k: "skipped hr hi line" by simp
  note c = shouldHighlight_correct[OF Cons.prems(1) k r]
  have srt: "sorted ls" using Cons.prems(2) by simp
  have nxt: "ls \<noteq> [] \<Longrightarrow> skipped hr (if nx then hi + 1 else hi) (hd ls)"
  proof -
    assume ne: "ls \<noteq> []"
    then have "line \<le> hd ls"
      using Cons.prems(2) by (cases ls) auto
    then show ?thesis by (rule c(2))
  qed
  from Cons.IH[OF Cons.prems(1) srt nxt] r c(1) show ?case
    by simp
qed

lemma code_lines_scan:
  "code_lines f cmap hr ld wt hi lts =
     concat (map (\<lambda>(hl, line, tokens). code_line f cmap ld wt hl line tokens)
               (zip (hl_scan hr hi (map fst lts)) lts))"
  by (induction lts arbitrary: hi) (auto split: prod.splits)

lemma table_lines_scan:
  "table_lines f cmap hr ld hi ls =
     concat (map (\<lambda>(hl, line). table_line f cmap ld hl line) (zip (hl_scan hr hi ls) ls))"
  by (induction ls arbitrary: hi) (auto split: prod.splits)

lemma code_line_frame:
  "code_line f cmap ld (lineNumbers f \<and> lineNumbersInTable f) hl line tokens =
     line_open f cmap ld hl line @
     map (\<lambda>tok. if classAttr f cmap (Type tok) [] \<noteq> []
                then ''<span'' @ classAttr f cmap (Type tok) [] @ ''>'' @
                     EscapeString (Value tok) @ ''</span>''
                else EscapeString (Value tok)) tokens @
     line_close f"
  by (auto simp: code_line_def line_open_def line_close_def token_html_def Let_def)

lemma html_writes_frame:
  "html_writes split f st cmap tokens =
     frame_before f st cmap (length (split tokens)) @
     concat (map (\<lambda>(hl, line, toks).
                    line_open f cmap (line_digits f (length (split tokens))) hl line @
                    map (\<lambda>tok. if classAttr f cmap (Type tok) [] \<noteq> []
                               then ''<span'' @ classAttr f cmap (Type tok) [] @ ''>'' @
                                    EscapeString (Value tok) @ ''</span>''
                               else EscapeString (Value tok)) toks @
                    line_close f)
               (zip (hl_scan (ranges_of f st) 0 (line_numbers f (length (split tokens))))
                    (zip (line_numbers f (length (split tokens))) (split tokens)))) @
     frame_after f"
proof -
  have n: "map fst (zip (line_numbers f (length (split tokens))) (split tokens))
             = line_numbers f (length (split tokens))"
    by (simp add: line_numbers_def)
  show ?thesis
    unfolding html_writes_def Let_def code_lines_scan n code_line_frame
    by (simp add: frame_before_def frame_after_def line_digits_def)
qed

lemmas config_defs = New_def BaseLineNumber_def HighlightLines_def PreventSurroundingPre_def
  by_start_def example_slice_def example_store_def nil_slice_def empty_store_def
  example_formatter_def

lemmas style_defs = example_heap_def example_std_def light_example_def dark_example_def
  no_style_def hl_style_def hl_heap_def hl_std_def white_text_style_def white_text_heap_def

lemmas trim_defs = TrimSpace_def isSpace_def space_len_ascii space_len_Nil

lemma Format_new_cache:
  "fst (snd (Format std split f st h newClassCache w s l tokens))
     = foldl (\<lambda>s1 x. fst (w s1 x)) s
         (html_writes split f st (classes std f h l (darkStyle f)) tokens)"
proof -
  have "fst (get std f h newClassCache l (darkStyle f)) = classes std f h l (darkStyle f)"
    by (simp add: get_result newClassCache_def)
  then show ?thesis
    by (simp add: Format_def writeHTML_def Fprint_def case_prod_beta)
qed

lemma foldl_recording_sink:
  "foldl (\<lambda>s1 x. fst (recording_sink s1 x)) s xs = s @ concat xs"
  by (induction xs arbitrary: s) (simp_all add: recording_sink_def)

lemma classAttr_Nil:
  "classAttr f cmap tt [] =
     (if TrimSpace (lookup cmap tt) = [] then []
      else '' class='' @ dq @ TrimSpace (lookup cmap tt) @ dq)"
  by (simp add: classAttr_def Let_def)

lemma example_formatter_fields:
  "standalone example_formatter = False" "prefix example_formatter = []"
  "darkStyle example_formatter = None" "preWrapper example_formatter = defaultPreWrapper"
  "inlineCode example_formatter = False" "preventSurroundingPre example_formatter = False"
  "tabWidth example_formatter = 0" "wrapLongLines example_formatter = False"
  "lineNumbers example_formatter = False" "lineNumbersInTable example_formatter = False"
  "linkableLineNumbers example_formatter = False" "baseLineNumber example_formatter = 1"
  "len (highlightRanges example_formatter) = 0"
  "ranges_of example_formatter empty_store = []"
  by (simp_all add: config_defs ranges_of_def read_slice_def)

lemma hl_formatter_fields:
  "standalone (fst hl_formatter) = False" "prefix (fst hl_formatter) = []"
  "darkStyle (fst hl_formatter) = None" "preWrapper (fst hl_formatter) = defaultPreWrapper"
  "inlineCode (fst hl_formatter) = False" "preventSurroundingPre (fst hl_formatter) = False"
  "tabWidth (fst hl_formatter) = 0" "wrapLongLines (fst hl_formatter) = False"
  "lineNumbers (fst hl_formatter) = False" "lineNumbersInTable (fst hl_formatter) = False"
  "linkableLineNumbers (fst hl_formatter) = False" "baseLineNumber (fst hl_formatter) = 2"
  "len (highlightRanges (fst hl_formatter)) = 2"
  "ranges_of (fst hl_formatter) (snd hl_formatter) = [(3, 5), (10, 11)]"
  by (simp_all add: hl_formatter_def config_defs ranges_of_def read_slice_def write_slice_def)

lemma nowrap_formatter_fields:
  "standalone (fst nowrap_formatter) = False" "prefix (fst nowrap_formatter) = []"
  "darkStyle (fst nowrap_formatter) = None" "preWrapper (fst nowrap_formatter) = nopPreWrapper"
  "inlineCode (fst nowrap_formatter) = False"
  "preventSurroundingPre (fst nowrap_formatter) = True"
  "tabWidth (fst nowrap_formatter) = 0" "wrapLongLines (fst nowrap_formatter) = False"
  "lineNumbers (fst nowrap_formatter) = False" "lineNumbersInTable (fst nowrap_formatter) = False"
  "linkableLineNumbers (fst nowrap_formatter) = False" "baseLineNumber (fst nowrap_formatter) = 3"
  "len (highlightRanges (fst nowrap_formatter)) = 2"
  "ranges_of (fst nowrap_formatter) (snd nowrap_formatter) = [(3, 5), (10, 11)]"
  by (simp_all add: nowrap_formatter_def config_defs ranges_of_def read_slice_def
      write_slice_def)

lemmas parts_defs = mapping_parts_def std_parts_def tab_part_def tabWidthClass_def
  class_parts_def prefixedClasses_def baseClasses_def prefixClass_def darkClass_def
  entryValuesFrom_def ev_classes_def darkVariantClasses_def lightEntry_of_def
  darkEntry_of_def Sub_def IsSet_def Colour_String_def hex_nat.simps hex_digit_def dark_of_def

lemma lookup_classes_opt:
  "lookup (classes std f h l d0) t = Join (mapping_parts std f (h l) (h (dark_of l d0)) t) '' ''"
  using classes_dark_of[of std f h l d0] lookup_classes[of std f h l "dark_of l d0" t] by simp

lemma example_lookups:
  "lookup (classes example_std example_formatter example_heap 0 None) PreWrapper
     = ''text-[#24292e] bg-[#ffffff] dark:text-[#24292e] dark:bg-[#ffffff]''"
  "lookup (classes example_std example_formatter example_heap 0 None) Line = ''flex''"
  "lookup (classes example_std example_formatter example_heap 0 None) CodeLine = []"
  "lookup (classes example_std example_formatter example_heap 0 None) (Tok 0)
     = ''text-[#d73a49] font-bold dark:text-[#d73a49] dark:font-bold''"
  by (simp_all add: lookup_classes_opt parts_defs style_defs example_formatter_fields)

lemma hl_lookups:
  "lookup (classes hl_std (fst hl_formatter) hl_heap 0 None) PreWrapper
     = ''grid text-[#24292e] bg-[#ffffff] dark:text-[#24292e] dark:bg-[#ffffff]''"
  "lookup (classes hl_std (fst hl_formatter) hl_heap 0 None) Line = ''flex''"
  "lookup (classes hl_std (fst hl_formatter) hl_heap 0 None) LineHighlight
     = ''bg-[#ffffcc] dark:bg-[#ffffcc]''"
  "lookup (classes hl_std (fst hl_formatter) hl_heap 0 None) CodeLine = []"
  "lookup (classes hl_std (fst hl_formatter) hl_heap 0 None) (Tok 0)
     = ''text-[#d73a49] font-bold dark:text-[#d73a49] dark:font-bold''"
  "lookup (classes hl_std (fst hl_formatter) hl_heap 0 None) (Tok (Suc 0)) = []"
  by (simp_all add: lookup_classes_opt parts_defs style_defs hl_formatter_fields)

lemma nowrap_lookups:
  "lookup (classes hl_std (fst nowrap_formatter) hl_heap 0 None) LineHighlight
     = ''bg-[#ffffcc] dark:bg-[#ffffcc]''"
  "lookup (classes hl_std (fst nowrap_formatter) hl_heap 0 None) (Tok 0)
     = ''text-[#d73a49] font-bold dark:text-[#d73a49] dark:font-bold''"
  "lookup (classes hl_std (fst nowrap_formatter) hl_heap 0 None) (Tok (Suc 0)) = []"
  by (simp_all add: lookup_classes_opt parts_defs style_defs nowrap_formatter_fields)

lemmas write_defs = html_writes_def Let_def code_line_def table_line_def token_html_def
  classAttr_Nil trim_defs line_numbers_def int64_def shouldHighlight_def hl_advance.simps
  EscapeString_def escape_char_def defaultPreWrapper_def nopPreWrapper_def
  split_single_def example_tokens_def upt_rec

lemma nowrap_writes:
  "html_writes split_single (fst nowrap_formatter) (snd nowrap_formatter)
     (classes hl_std (fst nowrap_formatter) hl_heap 0 None) example_tokens
   = [[],
      ''<span class='' @ dq @
        ''text-[#d73a49] font-bold dark:text-[#d73a49] dark:font-bold'' @ dq @
        ''>func</span>'',
      '' main'', []]"
  by (simp add: write_defs nowrap_formatter_fields nowrap_lookups)

lemma lookup_classes_no_std:
  "tabWidth f = 0 \<Longrightarrow> lookup (classes [] f h l d0) t = []"
  by (simp add: lookup_classes_opt mapping_parts_def std_parts_def tab_part_def
      tabWidthClass_def)

lemma foldl_failing_sink:
  "foldl (\<lambda>s1 x. fst (failing_sink s1 x)) s xs = s + length xs"
  by (induction xs arbitrary: s) (simp_all add: failing_sink_def)

text \<open>
  Claim C1 as stated fails: with a sink whose every write fails, the first write returns an
  error, yet Format returns nil, and all nine writes of the render are attempted.
\<close>

theorem format_swallows_write_error:
  "snd (failing_sink 0 ''<pre><code>'') = Some ''write failed''
   \<and> fst (Format [] split_single example_formatter empty_store example_heap newClassCache
            failing_sink 0 0 example_tokens) = None
   \<and> fst (snd (Format [] split_single example_formatter empty_store example_heap newClassCache
            failing_sink 0 0 example_tokens)) = 9"
proof -
  have w: "html_writes split_single example_formatter empty_store
             (classes [] example_formatter example_heap 0 None) example_tokens
           = [''<pre><code>'', ''<span'', ''>'', ''<span>'', ''func'', '' main'',
              ''</span>'', ''</span>'', ''</code></pre>'']"
    by (simp add: write_defs example_formatter_fields lookup_classes_no_std)
  have "fst (snd (Format [] split_single example_formatter empty_store example_heap
                    newClassCache failing_sink 0 0 example_tokens)) = 9"
    by (simp add: Format_new_cache example_formatter_fields w foldl_failing_sink)
  moreover have "fst (Format [] split_single example_formatter empty_store example_heap
                        newClassCache failing_sink 0 0 example_tokens) = None"
    by (simp add: Format_def writeHTML_def split: prod.splits)
  ultimately show ?thesis
    by (simp add: failing_sink_def)
qed

text \<open>
  Claim C8. The payloads of a render are the frame before the code block, then for every
  line what opens the line, one payload for each token of the line, and what closes the
  line, then the frame after the code block. The frame and what opens and closes a line
  are computed without the tokens. The payload of a token is the escaped text of
  the token, wrapped in a span when the class attribute of its category is not empty and
  bare otherwise: the text of a token reaches the sink in no other place and in no other
  form. What Format leaves in the sink is these payloads written in order. The escaped
  text holds no angle bracket and no quote, every ampersand in it starts one of the five
  entities, escaping commutes with splitting the text, and the string \<open><a&b>\<close> is escaped
  to \<open>&lt;a&amp;b&gt;\<close>.
\<close>

theorem token_text_escaped:
  "html_writes split f st cmap tokens =
     frame_before f st cmap (length (split tokens)) @
     concat (map (\<lambda>(marked, line, toks).
                    line_open f cmap (line_digits f (length (split tokens))) marked line @
                    map (\<lambda>tok. if classAttr f cmap (Type tok) [] \<noteq> []
                               then ''<span'' @ classAttr f cmap (Type tok) [] @ ''>'' @
                                    EscapeString (Value tok) @ ''</span>''
                               else EscapeString (Value tok)) toks @
                    line_close f)
               (zip (hl_scan (ranges_of f st) 0 (line_numbers f (length (split tokens))))
                    (zip (line_numbers f (length (split tokens))) (split tokens)))) @
     frame_after f
   \<and> fst (snd (Format std split f st h c w s style tokens))
       = foldl (\<lambda>s1 x. fst (w s1 x)) s
           (html_writes split f st (fst (get std f h c style (darkStyle f))) tokens)
   \<and> set (EscapeString v) \<inter> {CHR ''<'', CHR ''>'', CHR 0x22, CHR 0x27} = {}
   \<and> well_escaped (EscapeString v)
   \<and> EscapeString (a @ b) = EscapeString a @ EscapeString b
   \<and> EscapeString ''<a&b>'' = ''&lt;a&amp;b&gt;''"
proof -
  have e: "EscapeString ''<a&b>'' = ''&lt;a&amp;b&gt;''"
    by (simp add: EscapeString_def escape_char_def)
  have o: "fst (snd (Format std split f st h c w s style tokens))
       = foldl (\<lambda>s1 x. fst (w s1 x)) s
           (html_writes split f st (fst (get std f h c style (darkStyle f))) tokens)"
    by (simp add: Format_def writeHTML_def Fprint_def case_prod_beta)
  show ?thesis
    using html_writes_frame[of split f st cmap tokens] o e EscapeString_safe[of v]
      well_escaped_EscapeString[of v] EscapeString_append[of a b]
    by blast
qed

theorem token_text_escaped_witness:
  "fst (snd (Format example_std split_single example_formatter empty_store example_heap
               newClassCache recording_sink [] 0 [\<lparr> Type = Tok 0, Value = ''<a&b>'' \<rparr>]))
   = ''<pre class='' @ dq @
     ''text-[#24292e] bg-[#ffffff] dark:text-[#24292e] dark:bg-[#ffffff]'' @ dq @
     ''><code><span class='' @ dq @ ''flex'' @ dq @ ''><span><span class='' @ dq @
     ''text-[#d73a49] font-bold dark:text-[#d73a49] dark:font-bold'' @ dq @
     ''>&lt;a&amp;b&gt;</span></span></span></code></pre>''"
proof -
  let ?cm = "classes example_std example_formatter example_heap 0 None"
  let ?toks = "[\<lparr> Type = Tok 0, Value = ''<a&b>'' \<rparr>]"
  note t = token_text_escaped[where split = split_single and f = example_formatter
      and st = empty_store and cmap = ?cm and tokens = ?toks and std = example_std
      and h = example_heap and c = newClassCache and w = recording_sink and s = "[]"
      and style = 0]
  have g: "fst (get example_std example_formatter example_heap newClassCache 0
                  (darkStyle example_formatter)) = ?cm"
    by (simp add: get_result newClassCache_def example_formatter_fields)
  have w: "html_writes split_single example_formatter empty_store ?cm ?toks
     = [''<pre class='' @ dq @
          ''text-[#24292e] bg-[#ffffff] dark:text-[#24292e] dark:bg-[#ffffff]'' @ dq @
          ''><code>'',
        ''<span'', '' class='' @ dq @ ''flex'' @ dq @ ''>'', ''<span>'',
        ''<span class='' @ dq @
          ''text-[#d73a49] font-bold dark:text-[#d73a49] dark:font-bold'' @ dq @
          ''>&lt;a&amp;b&gt;</span>'',
        ''</span>'', ''</span>'', ''</code></pre>'']"
    using t
    by (simp add: frame_before_def frame_after_def line_open_def line_close_def
        line_digits_def classAttr_Nil trim_defs line_numbers_def int64_def
        shouldHighlight_def hl_advance.simps EscapeString_def escape_char_def
        defaultPreWrapper_def split_single_def upt_rec example_formatter_fields
        example_lookups)
  from t have "fst (snd (Format example_std split_single example_formatter empty_store
                           example_heap newClassCache recording_sink [] 0 ?toks))
      = foldl (\<lambda>s1 x. fst (recording_sink s1 x)) []
          (html_writes split_single example_formatter empty_store
             (fst (get example_std example_formatter example_heap newClassCache 0
                     (darkStyle example_formatter))) ?toks)"
    by blast
  then show ?thesis
    by (simp add: g w foldl_recording_sink)
qed

lemma table_lines_marked:
  assumes "sorted (map fst hr)" "sorted ls"
  shows "table_lines f cmap hr ld 0 ls =
     concat (map (\<lambda>line.
        (if in_ranges hr line then [''<span'' @ classAttr f cmap LineHighlight [] @ ''>'']
         else []) @
        [''<span'' @ classAttr f cmap LineNumbersTable [] @ lineIDAttribute f line @ ''>'' @
         lineTitleWithLinkIfNeeded f cmap ld line @ nl @ ''</span>''] @
        (if in_ranges hr line then [''</span>''] else [])) ls)"
  using table_lines_correct[OF assms, of 0 f cmap ld]
  by (simp add: skipped_0 table_line_def)

lemma code_lines_marked:
  assumes "sorted (map fst hr)" "sorted (map fst lts)"
    and "\<not> preventSurroundingPre f" "\<not> inlineCode f"
  shows "code_lines f cmap hr ld wt 0 lts =
     concat (map (\<lambda>(line, tokens).
        [''<span''] @
        (if in_ranges hr line
         then (if TrimSpace (Join [lookup cmap Line, lookup cmap LineHighlight] '' '') \<noteq> []
               then ['' class='' @ dq @
                     TrimSpace (Join [lookup cmap Line, lookup cmap LineHighlight] '' '') @ dq]
               else []) @ [''>'']
         else [classAttr f cmap Line [] @ ''>'']) @
        (if lineNumbers f \<and> \<not> wt
         then [''<span'' @ classAttr f cmap LineNumbers [] @ lineIDAttribute f line @
               ''>'' @ lineTitleWithLinkIfNeeded f cmap ld line @ ''</span>'']
         else []) @
        [''<span'' @ classAttr f cmap CodeLine [] @ ''>''] @
        map (token_html f cmap) tokens @
        [''</span>'', ''</span>'']) lts)"
proof -
  have "code_line f cmap ld wt hl line tokens =
        [''<span''] @
        (if hl
         then (if TrimSpace (Join [lookup cmap Line, lookup cmap LineHighlight] '' '') \<noteq> []
               then ['' class='' @ dq @
                     TrimSpace (Join [lookup cmap Line, lookup cmap LineHighlight] '' '') @ dq]
               else []) @ [''>'']
         else [classAttr f cmap Line [] @ ''>'']) @
        (if lineNumbers f \<and> \<not> wt
         then [''<span'' @ classAttr f cmap LineNumbers [] @ lineIDAttribute f line @
               ''>'' @ lineTitleWithLinkIfNeeded f cmap ld line @ ''</span>'']
         else []) @
        [''<span'' @ classAttr f cmap CodeLine [] @ ''>''] @
        map (token_html f cmap) tokens @
        [''</span>'', ''</span>'']" for hl line tokens
    using assms(3,4) by (simp add: code_line_def Let_def)
  then show ?thesis
    using code_lines_correct[OF assms(1,2), of 0 f cmap ld wt]
    by (simp add: skipped_0)
qed

lemma code_lines_unmarked:
  assumes "preventSurroundingPre f \<or> inlineCode f"
  shows "code_lines f cmap hr ld wt hi lts =
     concat (map (\<lambda>(line, tokens). map (token_html f cmap) tokens) lts)"
proof -
  have "code_line f cmap ld wt hl line tokens = map (token_html f cmap) tokens"
    for hl line tokens
    using assms by (auto simp: code_line_def)
  then show ?thesis
    by (induction lts arbitrary: hi) (auto split: prod.splits)
qed

lemma html_writes_marked:
  assumes "sorted (map fst (ranges_of f st))" "sorted (line_numbers f (length (split tokens)))"
  shows "html_writes split f st cmap tokens =
     frame_before f st cmap (length (split tokens)) @
     concat (map (\<lambda>(line, toks).
                    line_open f cmap (line_digits f (length (split tokens)))
                      (in_ranges (ranges_of f st) line) line @
                    map (token_html f cmap) toks @
                    line_close f)
               (zip (line_numbers f (length (split tokens))) (split tokens))) @
     frame_after f"
proof -
  let ?nums = "line_numbers f (length (split tokens))"
  have l: "length ?nums = length (split tokens)"
    by (simp add: line_numbers_def)
  have s: "hl_scan (ranges_of f st) 0 ?nums = map (in_ranges (ranges_of f st)) ?nums"
    using hl_scan_correct[OF assms, of 0] by (simp add: skipped_0)
  have z: "zip (map g xs) (zip xs ys) = map (\<lambda>(x, y). (g x, x, y)) (zip xs ys)"
    for g :: "int \<Rightarrow> bool" and xs and ys :: "Token list list"
    by (induction xs arbitrary: ys) (auto simp: zip_Cons1 split: list.splits)
  have tk: "(\<lambda>tok. if classAttr f cmap (Type tok) [] \<noteq> []
                  then ''<span'' @ classAttr f cmap (Type tok) [] @ ''>'' @
                       EscapeString (Value tok) @ ''</span>''
                  else EscapeString (Value tok)) = token_html f cmap"
    by (simp add: token_html_def Let_def fun_eq_iff)
  show ?thesis
    unfolding html_writes_frame s z tk
    by (simp add: case_prod_unfold comp_def)
qed

text \<open>
  Claim C7 (amended). After HighlightLines has been applied to a well-formed slice of ranges,
  with any sorting function that sorts by start line, the formatter's ranges are a
  permutation of the caller's ranges sorted by start line. For every list of line
  numbers in ascending order, the loop over the line-number column wraps the number of a
  line in a LineHighlight span if and only if the line lies in some range of the
  caller's list. The loop over the code lines, when PreventSurroundingPre and InlineCode
  are both off, gives the span of a line the classes of Line and LineHighlight if and
  only if the line lies in some range, and the classes of Line otherwise; when
  PreventSurroundingPre or InlineCode is on, it writes no line span and marks no line.
  When adding the line count to the base line number does not overflow, the line
  numbers of a render are ascending and the whole render is the frame, and for every
  line the opening marked exactly when the line lies in some range, the token payloads
  and the closing.
\<close>

theorem highlight_iff_in_range:
  assumes "sorts_by_start srt" and "off r + len r \<le> length (st (arr r))" and "sorted ls"
  shows "mset (ranges_of (fst (HighlightLines srt r (f, st))) (snd (HighlightLines srt r (f, st))))
           = mset (read_slice st r)
    \<and> sorted (map fst (ranges_of (fst (HighlightLines srt r (f, st)))
                         (snd (HighlightLines srt r (f, st)))))
    \<and> table_lines f1 cmap
         (ranges_of (fst (HighlightLines srt r (f, st))) (snd (HighlightLines srt r (f, st))))
         ld 0 ls
       = concat (map (\<lambda>line.
           (if in_ranges (read_slice st r) line
            then [''<span'' @ classAttr f1 cmap LineHighlight [] @ ''>''] else []) @
           [''<span'' @ classAttr f1 cmap LineNumbersTable [] @ lineIDAttribute f1 line @
            ''>'' @ lineTitleWithLinkIfNeeded f1 cmap ld line @ nl @ ''</span>''] @
           (if in_ranges (read_slice st r) line then [''</span>''] else [])) ls)
    \<and> (\<not> preventSurroundingPre f1 \<and> \<not> inlineCode f1 \<longrightarrow>
        code_lines f1 cmap
          (ranges_of (fst (HighlightLines srt r (f, st))) (snd (HighlightLines srt r (f, st))))
          ld wt 0 (zip ls tss)
        = concat (map (\<lambda>(line, tokens).
            [''<span''] @
            (if in_ranges (read_slice st r) line
             then (if TrimSpace (Join [lookup cmap Line, lookup cmap LineHighlight] '' '') \<noteq> []
                   then ['' class='' @ dq @
                         TrimSpace (Join [lookup cmap Line, lookup cmap LineHighlight] '' '') @
                         dq]
                   else []) @ [''>'']
             else [classAttr f1 cmap Line [] @ ''>'']) @
            (if lineNumbers f1 \<and> \<not> wt
             then [''<span'' @ classAttr f1 cmap LineNumbers [] @ lineIDAttribute f1 line @
                   ''>'' @ lineTitleWithLinkIfNeeded f1 cmap ld line @ ''</span>'']
             else []) @
            [''<span'' @ classAttr f1 cmap CodeLine [] @ ''>''] @
            map (token_html f1 cmap) tokens @
            [''</span>'', ''</span>'']) (zip ls tss)))
    \<and> (preventSurroundingPre f1 \<or> inlineCode f1 \<longrightarrow>
        code_lines f1 cmap
          (ranges_of (fst (HighlightLines srt r (f, st))) (snd (HighlightLines srt r (f, st))))
          ld wt 0 (zip ls tss)
        = concat (map (\<lambda>(line, tokens). map (token_html f1 cmap) tokens) (zip ls tss)))
    \<and> (- (2 ^ 63) \<le> baseLineNumber f \<and> baseLineNumber f + int (length (split tokens)) \<le> 2 ^ 63
         \<longrightarrow> html_writes split (fst (HighlightLines srt r (f, st)))
               (snd (HighlightLines srt r (f, st))) cmap tokens
             = frame_before (fst (HighlightLines srt r (f, st)))
                 (snd (HighlightLines srt r (f, st))) cmap (length (split tokens)) @
               concat (map (\<lambda>(line, toks).
                   line_open (fst (HighlightLines srt r (f, st))) cmap
                     (line_digits (fst (HighlightLines srt r (f, st))) (length (split tokens)))
                     (in_ranges (read_slice st r) line) line @
                   map (token_html (fst (HighlightLines srt r (f, st))) cmap) toks @
                   line_close (fst (HighlightLines srt r (f, st))))
                 (zip (line_numbers (fst (HighlightLines srt r (f, st)))
                         (length (split tokens))) (split tokens))) @
               frame_after (fst (HighlightLines srt r (f, st))))
    \<and> (- (2 ^ 63) \<le> baseLineNumber f1 \<and> baseLineNumber f1 + int n \<le> 2 ^ 63
         \<longrightarrow> sorted (line_numbers f1 n))"
proof -
  let ?F = "fst (HighlightLines srt r (f, st))"
  let ?S = "snd (HighlightLines srt r (f, st))"
  let ?hr = "ranges_of ?F ?S"
  have hr: "?hr = srt (read_slice st r)"
    using assms(1,2) HighlightLines_ranges[where srt = srt and r = r and st = st and f = f]
    by blast
  have m: "mset ?hr = mset (read_slice st r)" and s: "sorted (map fst ?hr)"
    using assms(1) by (simp_all add: hr sorts_by_start_def)
  have e: "in_ranges ?hr = in_ranges (read_slice st r)"
    using in_ranges_mset[OF m] by auto
  have z: "sorted (map fst (zip ls tss))"
    using assms(3) by (simp add: map_fst_zip_take sorted_wrt_take)
  note t = table_lines_marked[OF s assms(3), of f1 cmap ld, unfolded e]
  have c1: "\<not> preventSurroundingPre f1 \<and> \<not> inlineCode f1 \<longrightarrow>
        code_lines f1 cmap ?hr ld wt 0 (zip ls tss)
        = concat (map (\<lambda>(line, tokens).
            [''<span''] @
            (if in_ranges (read_slice st r) line
             then (if TrimSpace (Join [lookup cmap Line, lookup cmap LineHighlight] '' '') \<noteq> []
                   then ['' class='' @ dq @
                         TrimSpace (Join [lookup cmap Line, lookup cmap LineHighlight] '' '') @
                         dq]
                   else []) @ [''>'']
             else [classAttr f1 cmap Line [] @ ''>'']) @
            (if lineNumbers f1 \<and> \<not> wt
             then [''<span'' @ classAttr f1 cmap LineNumbers [] @ lineIDAttribute f1 line @
                   ''>'' @ lineTitleWithLinkIfNeeded f1 cmap ld line @ ''</span>'']
             else []) @
            [''<span'' @ classAttr f1 cmap CodeLine [] @ ''>''] @
            map (token_html f1 cmap) tokens @
            [''</span>'', ''</span>'']) (zip ls tss))"
    using code_lines_marked[OF s z, of f1 cmap ld wt, unfolded e] by blast
  have c2: "preventSurroundingPre f1 \<or> inlineCode f1 \<longrightarrow>
        code_lines f1 cmap ?hr ld wt 0 (zip ls tss)
        = concat (map (\<lambda>(line, tokens). map (token_html f1 cmap) tokens) (zip ls tss))"
    using code_lines_unmarked[of f1 cmap ?hr ld wt 0 "zip ls tss"] by blast
  have b: "baseLineNumber ?F = baseLineNumber f"
    by (simp add: HighlightLines_def)
  have h: "- (2 ^ 63) \<le> baseLineNumber f \<and> baseLineNumber f + int (length (split tokens)) \<le> 2 ^ 63
         \<longrightarrow> html_writes split ?F ?S cmap tokens
             = frame_before ?F ?S cmap (length (split tokens)) @
               concat (map (\<lambda>(line, toks).
                   line_open ?F cmap (line_digits ?F (length (split tokens)))
                     (in_ranges (read_slice st r) line) line @
                   map (token_html ?F cmap) toks @
                   line_close ?F)
                 (zip (line_numbers ?F (length (split tokens))) (split tokens))) @
               frame_after ?F"
  proof
    assume a: "- (2 ^ 63) \<le> baseLineNumber f \<and> baseLineNumber f + int (length (split tokens)) \<le> 2 ^ 63"
    then have "sorted (line_numbers ?F (length (split tokens)))"
      using line_numbers_sorted[of ?F "length (split tokens)"] by (simp add: b)
    with s html_writes_marked[where f = ?F and st = ?S and split = split
        and tokens = tokens and cmap = cmap, unfolded e]
    show "html_writes split ?F ?S cmap tokens
             = frame_before ?F ?S cmap (length (split tokens)) @
               concat (map (\<lambda>(line, toks).
                   line_open ?F cmap (line_digits ?F (length (split tokens)))
                     (in_ranges (read_slice st r) line) line @
                   map (token_html ?F cmap) toks @
                   line_close ?F)
                 (zip (line_numbers ?F (length (split tokens))) (split tokens))) @
               frame_after ?F" by blast
  qed
  show ?thesis
    using m s t c1 c2 h line_numbers_sorted[of f1 n] by blast
qed

lemma hl_formatter_eq:
  "HighlightLines by_start example_slice (fst (New [BaseLineNumber 2] example_store), example_store)
     = hl_formatter"
  by (simp add: hl_formatter_def New_def BaseLineNumber_def)

theorem highlight_iff_in_range_witness:
  "sorts_by_start by_start
   \<and> off example_slice + len example_slice \<le> length (example_store (arr example_slice))
   \<and> sorted [2, 3 :: int]
   \<and> line_numbers (fst hl_formatter) 2 = [2, 3]
   \<and> map (in_ranges (read_slice example_store example_slice)) [2, 3] = [False, True]
   \<and> \<not> preventSurroundingPre (fst hl_formatter) \<and> \<not> inlineCode (fst hl_formatter)
   \<and> html_writes split_each (fst hl_formatter) (snd hl_formatter)
        (classes hl_std (fst hl_formatter) hl_heap 0 None) example_tokens
       = [''<pre class='' @ dq @
            ''grid text-[#24292e] bg-[#ffffff] dark:text-[#24292e] dark:bg-[#ffffff]'' @ dq @
            ''><code>'',
          ''<span'', '' class='' @ dq @ ''flex'' @ dq @ ''>'', ''<span>'',
          ''<span class='' @ dq @
            ''text-[#d73a49] font-bold dark:text-[#d73a49] dark:font-bold'' @ dq @
            ''>func</span>'',
          ''</span>'', ''</span>'',
          ''<span'', '' class='' @ dq @ ''flex bg-[#ffffcc] dark:bg-[#ffffcc]'' @ dq, ''>'',
          ''<span>'', '' main'', ''</span>'', ''</span>'',
          ''</code></pre>'']
   \<and> fst (snd (Format hl_std split_each (fst hl_formatter) (snd hl_formatter) hl_heap
                 newClassCache recording_sink [] 0 example_tokens))
       = ''<pre class='' @ dq @
         ''grid text-[#24292e] bg-[#ffffff] dark:text-[#24292e] dark:bg-[#ffffff]'' @ dq @
         ''><code><span class='' @ dq @ ''flex'' @ dq @ ''><span><span class='' @ dq @
         ''text-[#d73a49] font-bold dark:text-[#d73a49] dark:font-bold'' @ dq @
         ''>func</span></span></span><span class='' @ dq @
         ''flex bg-[#ffffcc] dark:bg-[#ffffcc]'' @ dq @
         ''><span> main</span></span></code></pre>''
   \<and> (preventSurroundingPre (fst nowrap_formatter) \<or> inlineCode (fst nowrap_formatter))
   \<and> code_lines (fst nowrap_formatter) (classes hl_std (fst hl_formatter) hl_heap 0 None)
         (ranges_of (fst hl_formatter) (snd hl_formatter)) 1 False 0
         (zip [2, 3] (split_each example_tokens))
       = concat (map (\<lambda>(line, tokens).
                   map (token_html (fst nowrap_formatter)
                          (classes hl_std (fst hl_formatter) hl_heap 0 None)) tokens)
                 (zip [2, 3 :: int] (split_each example_tokens)))"
proof -
  let ?cm = "classes hl_std (fst hl_formatter) hl_heap 0 None"
  have h1: "sorts_by_start by_start"
    by (rule sorts_by_start_by_start)
  have h2: "off example_slice + len example_slice \<le> length (example_store (arr example_slice))"
    by (simp add: example_slice_def example_store_def)
  have h3: "sorted [2, 3 :: int]"
    by simp
  have n: "line_numbers (fst hl_formatter) 2 = [2, 3]"
    by (simp add: line_numbers_def hl_formatter_fields int64_def upt_rec)
  have r: "map (in_ranges (read_slice example_store example_slice)) [2, 3] = [False, True]"
    by (simp add: in_ranges_def read_slice_def example_store_def example_slice_def)
  have b: "- (2 ^ 63) \<le> baseLineNumber (fst (New [BaseLineNumber 2] example_store))
           \<and> baseLineNumber (fst (New [BaseLineNumber 2] example_store))
             + int (length (split_each example_tokens)) \<le> 2 ^ 63"
    by (simp add: New_def BaseLineNumber_def example_tokens_def)
  note t = highlight_iff_in_range[where srt = by_start and r = example_slice
      and st = example_store and f = "fst (New [BaseLineNumber 2] example_store)"
      and ls = "[2, 3]" and split = split_each and tokens = example_tokens and cmap = ?cm
      and ?f1.0 = "fst hl_formatter" and ld = 1 and wt = False and tss = "[]" and n = 2,
      unfolded hl_formatter_eq]
  from t h1 h2 h3 b
  have "html_writes split_each (fst hl_formatter) (snd hl_formatter) ?cm example_tokens
     = frame_before (fst hl_formatter) (snd hl_formatter) ?cm (length (split_each example_tokens)) @
       concat (map (\<lambda>(line, toks).
           line_open (fst hl_formatter) ?cm
             (line_digits (fst hl_formatter) (length (split_each example_tokens)))
             (in_ranges (read_slice example_store example_slice) line) line @
           map (token_html (fst hl_formatter) ?cm) toks @
           line_close (fst hl_formatter))
         (zip (line_numbers (fst hl_formatter) (length (split_each example_tokens)))
              (split_each example_tokens))) @
       frame_after (fst hl_formatter)"
    by blast
  then have w: "html_writes split_each (fst hl_formatter) (snd hl_formatter) ?cm example_tokens
       = [''<pre class='' @ dq @
            ''grid text-[#24292e] bg-[#ffffff] dark:text-[#24292e] dark:bg-[#ffffff]'' @ dq @
            ''><code>'',
          ''<span'', '' class='' @ dq @ ''flex'' @ dq @ ''>'', ''<span>'',
          ''<span class='' @ dq @
            ''text-[#d73a49] font-bold dark:text-[#d73a49] dark:font-bold'' @ dq @
            ''>func</span>'',
          ''</span>'', ''</span>'',
          ''<span'', '' class='' @ dq @ ''flex bg-[#ffffcc] dark:bg-[#ffffcc]'' @ dq, ''>'',
          ''<span>'', '' main'', ''</span>'', ''</span>'',
          ''</code></pre>'']"
    by (simp add: frame_before_def frame_after_def line_open_def line_close_def
        line_digits_def token_html_def Let_def classAttr_Nil trim_defs line_numbers_def
        int64_def in_ranges_def read_slice_def example_store_def example_slice_def
        EscapeString_def escape_char_def defaultPreWrapper_def example_tokens_def upt_rec
        hl_formatter_fields hl_lookups)
  have o: "fst (snd (Format hl_std split_each (fst hl_formatter) (snd hl_formatter) hl_heap
                 newClassCache recording_sink [] 0 example_tokens))
       = concat (html_writes split_each (fst hl_formatter) (snd hl_formatter) ?cm example_tokens)"
    by (simp add: Format_new_cache hl_formatter_fields foldl_recording_sink)
  have p: "\<not> preventSurroundingPre (fst hl_formatter) \<and> \<not> inlineCode (fst hl_formatter)"
    by (simp add: hl_formatter_fields)
  have o2: "fst (snd (Format hl_std split_each (fst hl_formatter) (snd hl_formatter) hl_heap
                 newClassCache recording_sink [] 0 example_tokens))
       = ''<pre class='' @ dq @
         ''grid text-[#24292e] bg-[#ffffff] dark:text-[#24292e] dark:bg-[#ffffff]'' @ dq @
         ''><code><span class='' @ dq @ ''flex'' @ dq @ ''><span><span class='' @ dq @
         ''text-[#d73a49] font-bold dark:text-[#d73a49] dark:font-bold'' @ dq @
         ''>func</span></span></span><span class='' @ dq @
         ''flex bg-[#ffffcc] dark:bg-[#ffffcc]'' @ dq @
         ''><span> main</span></span></code></pre>''"
    by (simp add: o w)
  have q: "preventSurroundingPre (fst nowrap_formatter) \<or> inlineCode (fst nowrap_formatter)"
    by (simp add: nowrap_formatter_fields)
  note t2 = highlight_iff_in_range[where srt = by_start and r = example_slice
      and st = example_store and f = "fst (New [BaseLineNumber 2] example_store)"
      and ls = "[2, 3]" and split = split_each and tokens = example_tokens and cmap = ?cm
      and ?f1.0 = "fst nowrap_formatter" and ld = 1 and wt = False
      and tss = "split_each example_tokens" and n = 2, unfolded hl_formatter_eq]
  have u: "code_lines (fst nowrap_formatter) ?cm
         (ranges_of (fst hl_formatter) (snd hl_formatter)) 1 False 0
         (zip [2, 3] (split_each example_tokens))
       = concat (map (\<lambda>(line, tokens). map (token_html (fst nowrap_formatter) ?cm) tokens)
                 (zip [2, 3 :: int] (split_each example_tokens)))"
    by (rule t2[OF h1 h2 h3, THEN conjunct2, THEN conjunct2, THEN conjunct2, THEN conjunct2,
          THEN conjunct1, THEN mp, OF q])
  show ?thesis
    using h1 h2 h3 n r p w o2 q u by blast
qed

text \<open>
  Claim C7 as stated fails: with PreventSurroundingPre, base line number 3 and the ranges
  [10,11] and [3,5], the only line of the render is line 3, which lies in a range, and the
  theme has a class for LineHighlight, but what Format writes is the two tokens alone,
  with no mark of a highlighted line.
\<close>

theorem highlight_dropped_without_line_spans:
  "in_ranges (ranges_of (fst nowrap_formatter) (snd nowrap_formatter)) 3
   \<and> line_numbers (fst nowrap_formatter) 1 = [3]
   \<and> lookup (classes hl_std (fst nowrap_formatter) hl_heap 0 None) LineHighlight
       = ''bg-[#ffffcc] dark:bg-[#ffffcc]''
   \<and> fst (snd (Format hl_std split_single (fst nowrap_formatter) (snd nowrap_formatter) hl_heap
                 newClassCache recording_sink [] 0 example_tokens))
       = ''<span class='' @ dq @
         ''text-[#d73a49] font-bold dark:text-[#d73a49] dark:font-bold'' @ dq @
         ''>func</span> main''"
proof -
  have "fst (snd (Format hl_std split_single (fst nowrap_formatter) (snd nowrap_formatter)
                    hl_heap newClassCache recording_sink [] 0 example_tokens))
       = ''<span class='' @ dq @
         ''text-[#d73a49] font-bold dark:text-[#d73a49] dark:font-bold'' @ dq @
         ''>func</span> main''"
    by (simp add: Format_new_cache nowrap_formatter_fields foldl_recording_sink nowrap_writes)
  moreover have "line_numbers (fst nowrap_formatter) 1 = [3]"
    by (simp add: line_numbers_def nowrap_formatter_fields int64_def)
  ultimately show ?thesis
    by (simp add: nowrap_formatter_fields nowrap_lookups in_ranges_def)
qed

text \<open>
  Claim C3 as stated fails: a category whose foreground colour is the background colour of
  the theme's Background entry (white on white), but not its foreground colour, keeps its
  text class.
\<close>

theorem white_on_white_keeps_text_class:
  "Tok 2 \<noteq> Background
   \<and> Colour (white_text_style (Tok 2)) = Background_colour (white_text_style Background)
   \<and> lookup (classes [Background, Tok 2] example_formatter white_text_heap 0 None) (Tok 2)
       = ''text-[#ffffff] dark:text-[#ffffff]''"
  by (simp add: lookup_classes_opt parts_defs style_defs example_formatter_fields)

end
